theory Spec2Isabelle
  imports Main "HOL-Library.Monad_Syntax"
begin

section \<open>Python values, strings and errors\<close>

text \<open>
  The scalar values that travel through the program: cells of the data frame, JSON values
  of a request body, bound statement parameters. A float is carried by its \<open>repr\<close>; the
  program never computes with one. The only inspection the program makes of a value is
  \<open>isinstance(value, str)\<close>.
\<close>

datatype pyval = PyNone | PyBool bool | PyInt int | PyFloat string | PyStr string

fun is_str :: "pyval \<Rightarrow> bool" where
  "is_str (PyStr s) = True"
| "is_str v = False"

fun is_int :: "pyval \<Rightarrow> bool" where
  "is_int (PyInt i) = True"
| "is_int v = False"

text \<open>\<open>sep.join(xs)\<close>.\<close>

fun join :: "string \<Rightarrow> string list \<Rightarrow> string" where
  "join sep [] = []"
| "join sep [x] = x"
| "join sep (x # y # ys) = x @ sep @ join sep (y # ys)"

text \<open>\<open>str(n)\<close> of an integer: decimal digits, a leading minus sign when negative.\<close>

fun str_of_nat :: "nat \<Rightarrow> string" where
  "str_of_nat n =
     (if n < 10 then [''0123456789'' ! n]
      else str_of_nat (n div 10) @ [''0123456789'' ! (n mod 10)])"

declare str_of_nat.simps [simp del]

definition str_of_int :: "int \<Rightarrow> string" where
  "str_of_int i = (if i < 0 then CHR ''-'' # str_of_nat (nat (- i)) else str_of_nat (nat i))"

text \<open>
  A dict is an association list with distinct keys, in insertion order;
  \<open>d[k] = v\<close> overwrites in place or appends.
\<close>

type_synonym 'v dict = "(string \<times> 'v) list"

fun dict_set :: "string \<Rightarrow> 'v \<Rightarrow> 'v dict \<Rightarrow> 'v dict" where
  "dict_set k v [] = [(k, v)]"
| "dict_set k v (p # ps) = (if fst p = k then (k, v) # ps else p # dict_set k v ps)"

text \<open>What the database driver and the store raise, and the Python exceptions of the program.\<close>

datatype db_error =
    SyntaxError
  | UndefinedTable string
  | UndefinedColumn string
  | DuplicateColumn
  | BindError
  | UniqueViolation
  | DatatypeMismatch

datatype error =
    ValueError string
  | AttributeError string
  | KeyError string
  | IndexError
  | FileNotFoundError
  | EmptyDataError
  | DatabaseError db_error

section \<open>The source table\<close>

text \<open>
  A pandas data frame as the program reads it: the column labels in file order
  (\<open>df.columns\<close>), the dtype of each column as \<open>str(dtype)\<close> prints it, and the rows
  in order (\<open>tuple(row)\<close> of \<open>df.iterrows()\<close>). Which dtype a column of a file gets
  is decided by the tabular reader, outside the program; the frame carries it as data.
\<close>

record dataframe =
  columns :: "string list"
  dtypes :: "string list"
  rows :: "pyval list list"

text \<open>\<open>df.empty\<close>: some axis has length zero.\<close>

definition empty_df :: "dataframe \<Rightarrow> bool" where
  "empty_df d = (columns d = [] \<or> rows d = [])"

text \<open>
  \<open>str(df[column].dtype)\<close>. Selecting a label that occurs once gives a column, which has
  a dtype; a label that occurs several times selects a frame, which has no attribute
  \<open>dtype\<close>; a label that does not occur is a key error.
\<close>

definition getitem_dtype :: "dataframe \<Rightarrow> string \<Rightarrow> error + string" where
  "getitem_dtype d column =
     (case filter (\<lambda>p. fst p = column) (zip (columns d) (dtypes d)) of
        [] \<Rightarrow> Inl (KeyError column)
      | [p] \<Rightarrow> Inr (snd p)
      | p # q # ps \<Rightarrow> Inl (AttributeError ''dtype''))"

text \<open>\<open>_load_csv\<close>: the file is absent, unparsable, or parsed into a frame.\<close>

datatype csv_file = Missing | Malformed string | Parsed dataframe

fun load_csv :: "csv_file \<Rightarrow> error + dataframe" where
  "load_csv Missing = Inl FileNotFoundError"
| "load_csv (Malformed msg) = Inl (ValueError (''Error parsing CSV file: '' @ msg))"
| "load_csv (Parsed d) = (if empty_df d then Inl EmptyDataError else Inr d)"

section \<open>Type inference\<close>

text \<open>The table \<open>dtype_mapping\<close> and its lookup \<open>dtype_mapping.get(str(dtype), 'TEXT')\<close>.\<close>

definition dtype_mapping :: "string dict" where
  "dtype_mapping =
     [(''int64'', ''INTEGER''),
      (''float64'', ''NUMERIC''),
      (''object'', ''TEXT''),
      (''datetime64[ns]'', ''TIMESTAMP''),
      (''bool'', ''BOOLEAN'')]"

definition pg_type :: "string \<Rightarrow> string" where
  "pg_type dtype = (case map_of dtype_mapping dtype of Some t \<Rightarrow> t | None \<Rightarrow> ''TEXT'')"

text \<open>
  The type of one column of the frame:
  \<open>pg_type = dtype_mapping.get(str(self.df[column].dtype), 'TEXT')\<close>.
\<close>

definition column_type :: "dataframe \<Rightarrow> string \<Rightarrow> error + string" where
  "column_type d column =
     (case getitem_dtype d column of Inl e \<Rightarrow> Inl e | Inr dtype \<Rightarrow> Inr (pg_type dtype))"

section \<open>Statements\<close>

text \<open>
  The ingestion object: \<open>self.schema\<close>, \<open>self.table_name\<close>, \<open>self.append\<close> and
  \<open>self.df\<close> (absent when no file was given). The gateway is configured with the same
  schema and table.
\<close>

record csv_ingestion =
  schema :: string
  table_name :: "string option"
  append_flag :: bool
  df :: "dataframe option"

text \<open>\<open>{self.schema}.{self.table_name}\<close> inside an f-string; \<open>None\<close> prints as text.\<close>

definition target :: "'a csv_ingestion_scheme \<Rightarrow> string" where
  "target self = schema self @ ''.'' @ (case table_name self of None \<Rightarrow> ''None'' | Some t \<Rightarrow> t)"

definition pk_column :: string where
  "pk_column = ''_csv_import_id_''"

definition quoted :: "string \<Rightarrow> string" where
  \<open>quoted col = ''"'' @ col @ ''"''\<close>

text \<open>
  A statement as the program builds it: the template it comes from and the parts spliced
  into the template. The WHERE fragment of a search is spliced in as the text the predicate
  compiler returned. \<open>sql_text\<close> is the text of the f-string.
\<close>

datatype sql =
    DropTable string
  | CreateTable string "(string \<times> string) list"
  | InsertInto string "string list"
  | SelectWhere string string
  | SelectWhereLimit string string
  | DeleteIn string "int list"
  | UpdateSet string "string list"

definition column_definitions :: "(string \<times> string) list \<Rightarrow> string list" where
  "column_definitions cols =
     (pk_column @ '' SERIAL PRIMARY KEY'') # map (\<lambda>(column, pgt). quoted column @ '' '' @ pgt) cols"

definition placeholders :: "string list \<Rightarrow> string" where
  "placeholders cols = join '','' (replicate (length cols) ''%s'')"

definition columns_str :: "string list \<Rightarrow> string" where
  "columns_str cols = join '','' (map quoted cols)"

definition ids_str :: "int list \<Rightarrow> string" where
  "ids_str ids = join '','' (map str_of_int ids)"

definition set_clause :: "string list \<Rightarrow> string" where
  "set_clause keys = join '', '' (map (\<lambda>k. quoted k @ '' = :'' @ k) keys)"

definition indent :: "nat \<Rightarrow> string" where
  "indent n = replicate n (CHR '' '')"

fun sql_text :: "sql \<Rightarrow> string" where
  "sql_text (DropTable t) = ''DROP TABLE IF EXISTS '' @ t"
| "sql_text (CreateTable t cols) =
     ''\<newline>'' @ indent 12 @ ''CREATE TABLE IF NOT EXISTS '' @ t @ '' (\<newline>'' @
     indent 16 @ join '', '' (column_definitions cols) @ ''\<newline>'' @
     indent 12 @ '')\<newline>'' @ indent 8"
| "sql_text (InsertInto t cols) =
     ''\<newline>'' @ indent 16 @ ''INSERT INTO '' @ t @ '' \<newline>'' @
     indent 16 @ ''('' @ columns_str cols @ '') \<newline>'' @
     indent 16 @ ''VALUES ('' @ placeholders cols @ '')\<newline>'' @ indent 12"
| "sql_text (SelectWhere t where_statement) =
     ''\<newline>'' @ indent 12 @ ''SELECT * \<newline>'' @
     indent 12 @ ''FROM '' @ t @ '' \<newline>'' @
     indent 12 @ ''WHERE '' @ where_statement @ ''\<newline>'' @ indent 8"
| "sql_text (SelectWhereLimit t where_clause) =
     ''\<newline>'' @ indent 12 @ ''SELECT * \<newline>'' @
     indent 12 @ ''FROM '' @ t @ ''\<newline>'' @
     indent 12 @ ''WHERE '' @ where_clause @ ''\<newline>'' @
     indent 12 @ ''LIMIT :limit\<newline>'' @ indent 8"
| "sql_text (DeleteIn t ids) =
     ''\<newline>'' @ indent 12 @ ''DELETE FROM '' @ t @ ''\<newline>'' @
     indent 12 @ ''WHERE _csv_import_id_ IN ('' @ ids_str ids @ '')\<newline>'' @
     indent 12 @ ''RETURNING _csv_import_id_\<newline>'' @ indent 8"
| "sql_text (UpdateSet t keys) =
     ''\<newline>'' @ indent 12 @ ''UPDATE '' @ t @ ''\<newline>'' @
     indent 12 @ ''SET '' @ set_clause keys @ ''\<newline>'' @
     indent 12 @ ''WHERE _csv_import_id_ = :item_id\<newline>'' @
     indent 12 @ ''RETURNING *\<newline>'' @ indent 8"

text \<open>The parameters handed over with a statement: a tuple (positional) or a dict (named).\<close>

datatype params = NoParams | Tuple "pyval list" | Dict "pyval dict"

section \<open>The store's reading of a WHERE fragment\<close>

text \<open>
  The store reads the fragment as text. The language read here is the one the
  predicate compiler writes: comparisons \<open>"column" = placeholder\<close> and
  \<open>LOWER("column") = LOWER(placeholder)\<close>, joined by \<open>AND\<close> and \<open>OR\<close>. A quoted
  identifier runs to its closing quote, a doubled quote inside standing for one quote.
  A placeholder is \<open>%s\<close> for the driver's positional style and \<open>:name\<close> for the
  named style. Any other text is a syntax error here.
\<close>

datatype placeholder = Positional | Named string

datatype paramstyle = Pyformat | NamedStyle

datatype comparison = Cmp bool string placeholder

datatype connective = And | Or

fun strip_prefix :: "string \<Rightarrow> string \<Rightarrow> string option" where
  "strip_prefix [] s = Some s"
| "strip_prefix (p # ps) [] = None"
| "strip_prefix (p # ps) (c # cs) = (if p = c then strip_prefix ps cs else None)"

fun read_ident :: "string \<Rightarrow> (string \<times> string) option" where
  "read_ident [] = None"
| "read_ident [c] = (if c = CHR 0x22 then Some ([], []) else None)"
| "read_ident (c # c' # cs) =
     (if c \<noteq> CHR 0x22 then map_option (apfst ((#) c)) (read_ident (c' # cs))
      else if c' = CHR 0x22 then map_option (apfst ((#) c)) (read_ident cs)
      else Some ([], c' # cs))"

definition word_char :: "char \<Rightarrow> bool" where
  "word_char c =
     (c \<in> set ''abcdefghijklmnopqrstuvwxyzABCDEFGHIJKLMNOPQRSTUVWXYZ0123456789_'')"

fun read_placeholder :: "paramstyle \<Rightarrow> string \<Rightarrow> (placeholder \<times> string) option" where
  "read_placeholder Pyformat s = map_option (Pair Positional) (strip_prefix ''%s'' s)"
| "read_placeholder NamedStyle [] = None"
| "read_placeholder NamedStyle (c # cs) =
     (if c = CHR '':'' \<and> takeWhile word_char cs \<noteq> []
      then Some (Named (takeWhile word_char cs), dropWhile word_char cs) else None)"

definition parse_comparison :: "paramstyle \<Rightarrow> string \<Rightarrow> (comparison \<times> string) option" where
  \<open>parse_comparison st s =
     (case strip_prefix ''LOWER("'' s of
        Some r \<Rightarrow>
          do {
            (col, r1) \<leftarrow> read_ident r;
            r2 \<leftarrow> strip_prefix '') = LOWER('' r1;
            (ph, r3) \<leftarrow> read_placeholder st r2;
            r4 \<leftarrow> strip_prefix '')'' r3;
            if col = [] then None else Some (Cmp True col ph, r4)
          }
      | None \<Rightarrow>
          do {
            r \<leftarrow> strip_prefix ''"'' s;
            (col, r1) \<leftarrow> read_ident r;
            r2 \<leftarrow> strip_prefix '' = '' r1;
            (ph, r3) \<leftarrow> read_placeholder st r2;
            if col = [] then None else Some (Cmp False col ph, r3)
          })\<close>

lemma strip_prefix_length: "strip_prefix p s = Some r \<Longrightarrow> length s = length p + length r"
  by (induction p s rule: strip_prefix.induct) (auto split: if_splits)

lemma read_ident_length: "read_ident s = Some (col, r) \<Longrightarrow> length r < length s"
  by (induction s arbitrary: col rule: read_ident.induct) (fastforce split: if_splits)+

lemma read_placeholder_length: "read_placeholder st s = Some (ph, r) \<Longrightarrow> length r \<le> length s"
proof (cases st)
  case Pyformat
  assume "read_placeholder st s = Some (ph, r)"
  with Pyformat show ?thesis by (auto dest: strip_prefix_length)
next
  case NamedStyle
  assume "read_placeholder st s = Some (ph, r)"
  with NamedStyle show ?thesis
    by (cases s) (auto split: if_splits intro: le_SucI length_dropWhile_le)
qed

lemma parse_comparison_length:
  "parse_comparison st s = Some (c, r) \<Longrightarrow> length r < length s"
  unfolding parse_comparison_def
  by (auto split: option.splits if_splits Option.bind_splits
      dest!: strip_prefix_length read_ident_length read_placeholder_length)

function parse_more :: "paramstyle \<Rightarrow> string \<Rightarrow> ((connective \<times> comparison) list) option" where
  "parse_more st s =
     (if s = [] then Some []
      else case strip_prefix '' AND '' s of
        Some r \<Rightarrow>
          (case parse_comparison st r of
             Some (c, r') \<Rightarrow> map_option ((#) (And, c)) (parse_more st r')
           | None \<Rightarrow> None)
      | None \<Rightarrow>
          (case strip_prefix '' OR '' s of
             Some r \<Rightarrow>
               (case parse_comparison st r of
                  Some (c, r') \<Rightarrow> map_option ((#) (Or, c)) (parse_more st r')
                | None \<Rightarrow> None)
           | None \<Rightarrow> None))"
  by pat_completeness auto
termination
proof (relation "measure (\<lambda>(st, s). length s)")
  show "wf (measure (\<lambda>(st, s). length s))" by simp
next
  fix st s r x c r'
  assume "strip_prefix '' AND '' s = Some r" "parse_comparison st r = Some x" "(c, r') = x"
  then show "((st, r'), (st, s)) \<in> measure (\<lambda>(st, s). length s)"
    by (auto dest!: strip_prefix_length parse_comparison_length)
next
  fix st s r x c r'
  assume "strip_prefix '' OR '' s = Some r" "parse_comparison st r = Some x" "(c, r') = x"
  then show "((st, r'), (st, s)) \<in> measure (\<lambda>(st, s). length s)"
    by (auto dest!: strip_prefix_length parse_comparison_length)
qed

declare parse_more.simps [simp del]

definition parse_where ::
  "paramstyle \<Rightarrow> string \<Rightarrow> (comparison \<times> (connective \<times> comparison) list) option" where
  "parse_where st s =
     (case parse_comparison st s of
        None \<Rightarrow> None
      | Some (c, r) \<Rightarrow> map_option (Pair c) (parse_more st r))"

section \<open>The relational store\<close>

text \<open>
  The store is the program's external collaborator. It is modelled as far as the statements
  above reach: a table has its data columns (name and declared type) after the synthetic
  key, its rows (key and data values, in insertion order) and the next value of the key's
  sequence. The store keeps a log of the statements it was handed, with their parameters.

  The model is an idealisation, and it is the more permissive side: a column label is taken
  as the identifier it is quoted to (a label that holds a double quote or a percent sign is
  not read the way the real store and driver read it), no value is checked against or
  converted to the declared type of its column, and a comparison of values of different
  kinds matches nothing. What is proved below of a run that completes therefore speaks of
  the statements handed over and of the rows kept; that an ingestion run completes is
  proved of concrete runs only.
\<close>

record table =
  tbl_columns :: "(string \<times> string) list"
  tbl_rows :: "(int \<times> pyval list) list"
  tbl_serial :: int

record store =
  tables :: "string \<Rightarrow> table option"
  log :: "(sql \<times> params) list"

text \<open>The store keeps the first 63 bytes of an identifier.\<close>

definition truncate_identifier :: "string \<Rightarrow> string" where
  "truncate_identifier name = take 63 name"

definition column_names :: "table \<Rightarrow> string list" where
  "column_names t = pk_column # map fst (tbl_columns t)"

text \<open>
  Besides its declared columns every table of the store has system columns. The model does
  not evaluate a comparison on one of them.
\<close>

definition system_columns :: "string list" where
  "system_columns = [''tableoid'', ''xmin'', ''cmin'', ''xmax'', ''cmax'', ''ctid'']"

text \<open>A row as the driver returns it: the values under their column names, the key first.\<close>

definition record_of :: "table \<Rightarrow> int \<times> pyval list \<Rightarrow> pyval dict" where
  "record_of t r = zip (column_names t) (PyInt (fst r) # snd r)"

subsection \<open>Insertion\<close>

definition insert_row :: "table \<Rightarrow> string list \<Rightarrow> params \<Rightarrow> db_error + table" where
  "insert_row t cols ps =
     (case ps of
        Tuple vs \<Rightarrow>
          if \<not> distinct (map truncate_identifier cols) then Inl DuplicateColumn
          else (case filter (\<lambda>c. c \<notin> set (column_names t)) (map truncate_identifier cols) of
             bad # rest \<Rightarrow> Inl (UndefinedColumn bad)
           | [] \<Rightarrow>
               if length vs \<noteq> length cols then Inl BindError
               else
                 let given = map_of (zip (map truncate_identifier cols) vs);
                     data = map (\<lambda>c. case given c of Some v \<Rightarrow> v | None \<Rightarrow> PyNone)
                              (map fst (tbl_columns t))
                 in (case given pk_column of
                       None \<Rightarrow>
                         Inr (t\<lparr>tbl_rows := tbl_rows t @ [(tbl_serial t, data)],
                                tbl_serial := tbl_serial t + 1\<rparr>)
                     | Some (PyInt k) \<Rightarrow>
                         if k \<in> set (map fst (tbl_rows t)) then Inl UniqueViolation
                         else Inr (t\<lparr>tbl_rows := tbl_rows t @ [(k, data)]\<rparr>)
                     | Some v \<Rightarrow> Inl DatatypeMismatch))
      | other \<Rightarrow> Inl BindError)"

subsection \<open>Selection\<close>

definition lower_char :: "char \<Rightarrow> char" where
  "lower_char c =
     (case map_of (zip ''ABCDEFGHIJKLMNOPQRSTUVWXYZ'' ''abcdefghijklmnopqrstuvwxyz'') c of
        Some l \<Rightarrow> l
      | None \<Rightarrow> c)"

fun sql_lower :: "pyval \<Rightarrow> string option" where
  "sql_lower (PyStr s) = Some (map lower_char s)"
| "sql_lower v = None"

text \<open>
  One comparison on a stored value and a bound value: folded (\<open>LOWER(..) = LOWER(..)\<close>)
  or direct. A null on either side matches nothing.
\<close>

fun holds :: "bool \<Rightarrow> pyval \<Rightarrow> pyval \<Rightarrow> bool" where
  "holds True stored bound =
     (case (sql_lower stored, sql_lower bound) of (Some a, Some b) \<Rightarrow> a = b | other \<Rightarrow> False)"
| "holds False stored bound = (stored \<noteq> PyNone \<and> bound \<noteq> PyNone \<and> stored = bound)"

fun cmp_column :: "comparison \<Rightarrow> string" where
  "cmp_column (Cmp folded col ph) = col"

fun truncated :: "comparison \<Rightarrow> comparison" where
  "truncated (Cmp folded col ph) = Cmp folded (truncate_identifier col) ph"

fun test_cmp :: "pyval dict \<Rightarrow> comparison \<Rightarrow> pyval \<Rightarrow> bool" where
  "test_cmp r (Cmp folded col ph) bound =
     (case map_of r col of None \<Rightarrow> False | Some stored \<Rightarrow> holds folded stored bound)"

text \<open>\<open>AND\<close> binds tighter than \<open>OR\<close>.\<close>

fun combine :: "bool \<Rightarrow> (connective \<times> bool) list \<Rightarrow> bool" where
  "combine cur [] = cur"
| "combine cur ((And, b) # rest) = combine (cur \<and> b) rest"
| "combine cur ((Or, b) # rest) = (cur \<or> combine b rest)"

fun bind_named :: "pyval dict \<Rightarrow> comparison list \<Rightarrow> pyval list option" where
  "bind_named d [] = Some []"
| "bind_named d (Cmp folded col (Named n) # cs) =
     (case map_of d n of None \<Rightarrow> None | Some v \<Rightarrow> map_option ((#) v) (bind_named d cs))"
| "bind_named d (Cmp folded col Positional # cs) = None"

fun bind_params :: "params \<Rightarrow> comparison list \<Rightarrow> pyval list option" where
  "bind_params (Tuple vs) cs = (if length vs = length cs then Some vs else None)"
| "bind_params (Dict d) cs = bind_named d cs"
| "bind_params NoParams cs = None"

definition select_where ::
  "table \<Rightarrow> paramstyle \<Rightarrow> string \<Rightarrow> params \<Rightarrow> db_error + pyval dict list" where
  "select_where t st fragment ps =
     (case parse_where st fragment of
        None \<Rightarrow> Inl SyntaxError
      | Some (c, rest) \<Rightarrow>
          (case bind_params ps (c # map snd rest) of
             None \<Rightarrow> Inl BindError
           | Some vs \<Rightarrow>
               (case filter (\<lambda>col. col \<notin> set (column_names t))
                       (map (cmp_column \<circ> truncated) (c # map snd rest)) of
                  bad # others \<Rightarrow> Inl (UndefinedColumn bad)
                | [] \<Rightarrow>
                    Inr (filter
                      (\<lambda>r. case map2 (test_cmp r) (map truncated (c # map snd rest)) vs of
                              [] \<Rightarrow> False
                            | b # bs \<Rightarrow> combine b (zip (map fst rest) bs))
                      (map (record_of t) (tbl_rows t))))))"

subsection \<open>Deletion and update\<close>

definition delete_in :: "table \<Rightarrow> int list \<Rightarrow> pyval dict list \<times> table" where
  "delete_in t ids =
     (map (\<lambda>r. [(pk_column, PyInt (fst r))]) (filter (\<lambda>r. fst r \<in> set ids) (tbl_rows t)),
      t\<lparr>tbl_rows := filter (\<lambda>r. fst r \<notin> set ids) (tbl_rows t)\<rparr>)"

definition is_word :: "string \<Rightarrow> bool" where
  "is_word k = (k \<noteq> [] \<and> list_all word_char k)"

text \<open>The row after \<open>SET\<close>: a bound value for each listed column, the old value elsewhere.\<close>

definition set_values :: "table \<Rightarrow> pyval dict \<Rightarrow> pyval list \<Rightarrow> pyval list" where
  "set_values t new vs =
     map2 (\<lambda>c v. case map_of new c of Some v' \<Rightarrow> v' | None \<Rightarrow> v) (map fst (tbl_columns t)) vs"

definition assign :: "table \<Rightarrow> pyval dict \<Rightarrow> int \<times> pyval list \<Rightarrow> db_error + int \<times> pyval list" where
  "assign t new r =
     (let data = set_values t new (snd r)
      in case map_of new pk_column of
           None \<Rightarrow> Inr (fst r, data)
         | Some (PyInt k) \<Rightarrow>
             if k \<noteq> fst r \<and> k \<in> set (map fst (tbl_rows t)) then Inl UniqueViolation
             else Inr (k, data)
         | Some v \<Rightarrow> Inl DatatypeMismatch)"

fun update_rows ::
  "table \<Rightarrow> pyval dict \<Rightarrow> int \<Rightarrow> (int \<times> pyval list) list \<Rightarrow>
    db_error + (int \<times> pyval list) list \<times> (int \<times> pyval list) list" where
  "update_rows t new i [] = Inr ([], [])"
| "update_rows t new i (r # rs) =
     (case update_rows t new i rs of
        Inl e \<Rightarrow> Inl e
      | Inr (hit, rs') \<Rightarrow>
          if fst r = i then
            (case assign t new r of Inl e \<Rightarrow> Inl e | Inr r' \<Rightarrow> Inr (r' # hit, r' # rs'))
          else Inr (hit, r # rs'))"

definition update_set :: "table \<Rightarrow> string list \<Rightarrow> params \<Rightarrow> db_error + pyval dict list \<times> table" where
  "update_set t keys ps =
     (if keys = [] then Inl SyntaxError
      else if \<not> list_all is_word keys then Inl BindError
      else (case ps of
         Dict d \<Rightarrow>
           (case (map_of d ''item_id'', those (map (map_of d) keys)) of
              (Some (PyInt i), Some vs) \<Rightarrow>
                (case filter (\<lambda>k. k \<notin> set (column_names t)) (map truncate_identifier keys) of
                   bad # others \<Rightarrow> Inl (UndefinedColumn bad)
                 | [] \<Rightarrow>
                     if \<not> distinct (map truncate_identifier keys) then Inl DuplicateColumn
                     else
                       (case update_rows t (zip (map truncate_identifier keys) vs) i (tbl_rows t) of
                          Inl e \<Rightarrow> Inl e
                        | Inr (hit, rs') \<Rightarrow> Inr (map (record_of t) hit, t\<lparr>tbl_rows := rs'\<rparr>)))
            | other \<Rightarrow> Inl BindError)
       | other \<Rightarrow> Inl BindError))"

subsection \<open>Running a statement\<close>

fun on_table ::
  "(string \<Rightarrow> table option) \<Rightarrow> string \<Rightarrow> (table \<Rightarrow> db_error + 'a) \<Rightarrow> db_error + 'a" where
  "on_table ts n f = (case ts n of None \<Rightarrow> Inl (UndefinedTable n) | Some t \<Rightarrow> f t)"

fun run ::
  "sql \<Rightarrow> params \<Rightarrow> (string \<Rightarrow> table option) \<Rightarrow>
    db_error + pyval dict list \<times> (string \<Rightarrow> table option)" where
  "run (DropTable n) ps ts = Inr ([], ts(n := None))"
| "run (CreateTable n cols) ps ts =
     (case ts n of
        Some t \<Rightarrow> Inr ([], ts)
      | None \<Rightarrow>
          if distinct (pk_column # map (truncate_identifier \<circ> fst) cols)
          then Inr ([], ts(n \<mapsto>
                 \<lparr>tbl_columns = map (\<lambda>(c, ty). (truncate_identifier c, ty)) cols,
                  tbl_rows = [], tbl_serial = 1\<rparr>))
          else Inl DuplicateColumn)"
| "run (InsertInto n cols) ps ts =
     on_table ts n (\<lambda>t. case insert_row t cols ps of
        Inl e \<Rightarrow> Inl e
      | Inr t' \<Rightarrow> Inr ([], ts(n \<mapsto> t')))"
| "run (SelectWhere n fragment) ps ts =
     on_table ts n (\<lambda>t. case select_where t Pyformat fragment ps of
        Inl e \<Rightarrow> Inl e
      | Inr rs \<Rightarrow> Inr (rs, ts))"
| "run (SelectWhereLimit n fragment) ps ts =
     on_table ts n (\<lambda>t. case select_where t NamedStyle fragment ps of
        Inl e \<Rightarrow> Inl e
      | Inr rs \<Rightarrow>
          (case ps of
             Dict d \<Rightarrow>
               (case map_of d ''limit'' of
                  Some (PyInt k) \<Rightarrow> Inr (take (nat k) rs, ts)
                | other \<Rightarrow> Inl BindError)
           | other \<Rightarrow> Inl BindError))"
| "run (DeleteIn n ids) ps ts =
     (if ids = [] then Inl SyntaxError
      else on_table ts n (\<lambda>t. case delete_in t ids of (rs, t') \<Rightarrow> Inr (rs, ts(n \<mapsto> t'))))"
| "run (UpdateSet n keys) ps ts =
     on_table ts n (\<lambda>t. case update_set t keys ps of
        Inl e \<Rightarrow> Inl e
      | Inr (rs, t') \<Rightarrow> Inr (rs, ts(n \<mapsto> t')))"

text \<open>\<open>cursor.execute(query, params)\<close>: the statement is logged and run.\<close>

definition execute :: "sql \<Rightarrow> params \<Rightarrow> store \<Rightarrow> (db_error + pyval dict list) \<times> store" where
  "execute q ps s =
     (case run q ps (tables s) of
        Inl e \<Rightarrow> (Inl e, s\<lparr>log := log s @ [(q, ps)]\<rparr>)
      | Inr (rs, ts) \<Rightarrow> (Inr rs, \<lparr>tables = ts, log = log s @ [(q, ps)]\<rparr>))"

section \<open>Ingestion\<close>

text \<open>
  \<open>with self._connect_postgres() as conn\<close>: the block's statements are committed
  together; when one raises, the tables are as before the block and the exception goes on.
\<close>

definition rollback :: "store \<Rightarrow> store \<Rightarrow> store" where
  "rollback before s = s\<lparr>tables := tables before\<rparr>"

definition drop_table_if_exists :: "csv_ingestion \<Rightarrow> store \<Rightarrow> error option \<times> store" where
  "drop_table_if_exists self s =
     (case execute (DropTable (target self)) NoParams s of
        (Inl e, s') \<Rightarrow> (Some (DatabaseError e), rollback s s')
      | (Inr rs, s') \<Rightarrow> (None, s'))"

text \<open>The loop of \<open>_create_table_with_id\<close> over \<open>self.df.columns\<close>.\<close>

fun column_types :: "dataframe \<Rightarrow> string list \<Rightarrow> error + (string \<times> string) list" where
  "column_types d [] = Inr []"
| "column_types d (column # cs) =
     (case column_type d column of
        Inl e \<Rightarrow> Inl e
      | Inr pgt \<Rightarrow>
          (case column_types d cs of
             Inl e \<Rightarrow> Inl e
           | Inr r \<Rightarrow> Inr ((column, pgt) # r)))"

definition create_table_query :: "csv_ingestion \<Rightarrow> error + sql" where
  "create_table_query self =
     (case df self of
        None \<Rightarrow> Inl (ValueError ''No data loaded from CSV'')
      | Some d \<Rightarrow>
          if empty_df d then Inl (ValueError ''No data loaded from CSV'')
          else (case column_types d (columns d) of
             Inl e \<Rightarrow> Inl e
           | Inr cols \<Rightarrow> Inr (CreateTable (target self) cols)))"

definition create_table_with_id :: "csv_ingestion \<Rightarrow> store \<Rightarrow> error option \<times> store" where
  "create_table_with_id self s =
     (case create_table_query self of
        Inl e \<Rightarrow> (Some e, s)
      | Inr q \<Rightarrow>
          (case execute q NoParams s of
             (Inl e, s') \<Rightarrow> (Some (DatabaseError e), rollback s s')
           | (Inr rs, s') \<Rightarrow> (None, s')))"

definition insert_query :: "csv_ingestion \<Rightarrow> dataframe \<Rightarrow> sql" where
  "insert_query self d = InsertInto (target self) (columns d)"

text \<open>The loop \<open>for _, row in self.df.iterrows(): cur.execute(insert_query, tuple(row))\<close>.\<close>

fun insert_rows :: "sql \<Rightarrow> pyval list list \<Rightarrow> store \<Rightarrow> db_error option \<times> store" where
  "insert_rows q [] s = (None, s)"
| "insert_rows q (row # rs) s =
     (case execute q (Tuple row) s of
        (Inl e, s') \<Rightarrow> (Some e, s')
      | (Inr r, s') \<Rightarrow> insert_rows q rs s')"

definition insert_data :: "csv_ingestion \<Rightarrow> store \<Rightarrow> error option \<times> store" where
  "insert_data self s =
     (case df self of
        None \<Rightarrow> (Some (AttributeError ''df''), s)
      | Some d \<Rightarrow>
          if empty_df d then (None, s)
          else if columns d = [] then (None, s)
          else (case insert_rows (insert_query self d) (rows d) s of
             (Some e, s') \<Rightarrow> (Some (DatabaseError e), rollback s s')
           | (None, s') \<Rightarrow> (None, s')))"

text \<open>
  The constructor: with a file, load it, drop the table unless appending, create the
  table, insert the rows.
\<close>

definition init ::
  "string \<Rightarrow> string option \<Rightarrow> csv_file option \<Rightarrow> bool \<Rightarrow> store \<Rightarrow>
    (error + csv_ingestion) \<times> store" where
  "init sch tn csv app s =
     (case csv of
        None \<Rightarrow> (Inr \<lparr>schema = sch, table_name = tn, append_flag = app, df = None\<rparr>, s)
      | Some file \<Rightarrow>
          (case load_csv file of
             Inl e \<Rightarrow> (Inl e, s)
           | Inr d \<Rightarrow>
               let self = \<lparr>schema = sch, table_name = tn, append_flag = app, df = Some d\<rparr>;
                   dropped = (if \<not> app then drop_table_if_exists self s else (None, s))
               in (case dropped of
                     (Some e, s1) \<Rightarrow> (Inl e, s1)
                   | (None, s1) \<Rightarrow>
                       (case create_table_with_id self s1 of
                          (Some e, s2) \<Rightarrow> (Inl e, s2)
                        | (None, s2) \<Rightarrow>
                            (case insert_data self s2 of
                               (Some e, s3) \<Rightarrow> (Inl e, s3)
                             | (None, s3) \<Rightarrow> (Inr self, s3))))))"

text \<open>The number of rows of the target table; none when the table does not exist.\<close>

definition row_count :: "csv_ingestion \<Rightarrow> store \<Rightarrow> nat" where
  "row_count self s = (case tables s (target self) of None \<Rightarrow> 0 | Some t \<Rightarrow> length (tbl_rows t))"

section \<open>Search\<close>

text \<open>The per-column comparison of \<open>search_data\<close> (positional placeholders).\<close>

definition search_clause :: "bool \<Rightarrow> string \<times> pyval \<Rightarrow> string" where
  \<open>search_clause case_sensitive cv =
     (if is_str (snd cv) \<and> \<not> case_sensitive
      then ''LOWER("'' @ fst cv @ ''") = LOWER(%s)''
      else ''"'' @ fst cv @ ''" = %s'')\<close>

definition falsy :: "string option \<Rightarrow> bool" where
  "falsy name = (name = None \<or> name = Some [])"

definition search_query ::
  "csv_ingestion \<Rightarrow> pyval dict \<Rightarrow> string \<Rightarrow> bool \<Rightarrow> error + sql \<times> params" where
  "search_query self conditions operator case_sensitive =
     (if falsy (table_name self) then Inl (ValueError ''No table selected for searching'')
      else if conditions = [] then Inl (ValueError ''No search conditions provided'')
      else Inr (SelectWhere (target self)
                  (join ('' '' @ operator @ '' '') (map (search_clause case_sensitive) conditions)),
                Tuple (map snd conditions)))"

definition search_data ::
  "csv_ingestion \<Rightarrow> pyval dict \<Rightarrow> string \<Rightarrow> bool \<Rightarrow> store \<Rightarrow>
    (error + pyval dict list) \<times> store" where
  "search_data self conditions operator case_sensitive s =
     (case search_query self conditions operator case_sensitive of
        Inl e \<Rightarrow> (Inl e, s)
      | Inr (q, ps) \<Rightarrow>
          (case execute q ps s of
             (Inl e, s') \<Rightarrow> (Inl (DatabaseError e), rollback s s')
           | (Inr rs, s') \<Rightarrow> (Inr rs, s')))"

text \<open>The per-column comparison of \<open>build_where_clause\<close> (named placeholders).\<close>

definition param_name :: "nat \<Rightarrow> string" where
  "param_name idx = ''param_'' @ str_of_nat idx"

definition where_clause :: "bool \<Rightarrow> nat \<times> string \<times> pyval \<Rightarrow> string" where
  \<open>where_clause case_sensitive e =
     (case e of (idx, col, v) \<Rightarrow>
        if is_str v \<and> \<not> case_sensitive
        then ''LOWER("'' @ col @ ''") = LOWER(:'' @ param_name idx @ '')''
        else ''"'' @ col @ ''" = :'' @ param_name idx)\<close>

definition build_where_clause :: "pyval dict \<Rightarrow> string \<Rightarrow> bool \<Rightarrow> string \<times> pyval dict" where
  "build_where_clause conditions operator case_sensitive =
     (join ('' '' @ operator @ '' '') (map (where_clause case_sensitive) (enumerate 0 conditions)),
      map (\<lambda>(idx, col, v). (param_name idx, v)) (enumerate 0 conditions))"

section \<open>The gateway\<close>

text \<open>
  A request ends in a result or in an HTTP error: the status code and, as detail, the
  message of the exception that was caught. A path or query parameter outside the declared
  bounds is refused before the handler runs.
\<close>

datatype detail = Message string | StrOf error

datatype http_error = HTTPException nat detail | RequestValidationError

record search_request =
  conditions :: "pyval dict"
  operator :: string
  case_sensitive :: bool

definition query_by_text ::
  "csv_ingestion \<Rightarrow> search_request \<Rightarrow> int \<Rightarrow> store \<Rightarrow>
    (http_error + pyval dict list) \<times> store" where
  "query_by_text self search limit s =
     (if limit < 1 \<or> 100 < limit then (Inl RequestValidationError, s)
      else
        (case build_where_clause (conditions search) (operator search) (case_sensitive search) of
           (fragment, ps) \<Rightarrow>
             (case execute (SelectWhereLimit (target self) fragment)
                     (Dict (dict_set ''limit'' (PyInt limit) ps)) s of
                (Inl e, s') \<Rightarrow> (Inl (HTTPException 400 (StrOf (DatabaseError e))), rollback s s')
              | (Inr rs, s') \<Rightarrow> (Inr rs, s'))))"

text \<open>\<open>row[0]\<close> of a returned row.\<close>

fun first_value :: "pyval dict \<Rightarrow> pyval option" where
  "first_value [] = None"
| "first_value (p # ps) = Some (snd p)"

definition delete_items ::
  "csv_ingestion \<Rightarrow> int list \<Rightarrow> store \<Rightarrow> (http_error + pyval list) \<times> store" where
  "delete_items self ids s =
     (case execute (DeleteIn (target self) ids) NoParams s of
        (Inl e, s') \<Rightarrow> (Inl (HTTPException 400 (StrOf (DatabaseError e))), rollback s s')
      | (Inr rs, s') \<Rightarrow>
          (case those (map first_value rs) of
             None \<Rightarrow> (Inl (HTTPException 400 (StrOf IndexError)), rollback s s')
           | Some deleted_ids \<Rightarrow> (Inr deleted_ids, s')))"

definition update_item ::
  "csv_ingestion \<Rightarrow> int \<Rightarrow> pyval dict \<Rightarrow> store \<Rightarrow> (http_error + pyval dict) \<times> store" where
  "update_item self item_id update_columns s =
     (if item_id < 1 then (Inl RequestValidationError, s)
      else
        (case execute (UpdateSet (target self) (map fst update_columns))
                (Dict (dict_set ''item_id'' (PyInt item_id) update_columns)) s of
           (Inl e, s') \<Rightarrow> (Inl (HTTPException 400 (StrOf (DatabaseError e))), rollback s s')
         | (Inr [], s') \<Rightarrow> (Inl (HTTPException 404 (Message ''Item not found'')), rollback s s')
         | (Inr (updated_row # others), s') \<Rightarrow> (Inr updated_row, s')))"

section \<open>Derived notions and sample data\<close>

text \<open>The statements the store was handed between an earlier and a later state.\<close>

definition issued :: "store \<Rightarrow> store \<Rightarrow> (sql \<times> params) list" where
  "issued before after = drop (length (log before)) (log after)"

text \<open>The sample data of \<open>test_csv_ingestion\<close>, and the table it is loaded into.\<close>

definition sample_df :: dataframe where
  "sample_df =
     \<lparr>columns = [''name'', ''age'', ''city''],
      dtypes = [''object'', ''int64'', ''object''],
      rows = [[PyStr ''John'', PyInt 30, PyStr ''New York''],
              [PyStr ''Jane'', PyInt 25, PyStr ''Los Angeles''],
              [PyStr ''Bob'', PyInt 35, PyStr ''Chicago'']]\<rparr>"

definition sample_table :: table where
  "sample_table =
     \<lparr>tbl_columns = [(''name'', ''TEXT''), (''age'', ''INTEGER''), (''city'', ''TEXT'')],
      tbl_rows = [(1, [PyStr ''John'', PyInt 30, PyStr ''New York'']),
                  (2, [PyStr ''Jane'', PyInt 25, PyStr ''Los Angeles'']),
                  (3, [PyStr ''Bob'', PyInt 35, PyStr ''Chicago''])],
      tbl_serial = 4\<rparr>"

definition gateway :: csv_ingestion where
  "gateway =
     \<lparr>schema = ''public'', table_name = Some ''csv_data_table01'', append_flag = False,
      df = None\<rparr>"

definition no_tables :: store where
  "no_tables = \<lparr>tables = (\<lambda>n. None), log = []\<rparr>"

definition sample_store :: store where
  "sample_store = \<lparr>tables = [''public.csv_data_table01'' \<mapsto> sample_table], log = []\<rparr>"

text \<open>
  What the store is to read out of a compiled condition entry, out of a combinator, and
  the text that follows the first comparison of a joined list.
\<close>

fun compiled :: "bool \<Rightarrow> nat \<times> string \<times> pyval \<Rightarrow> comparison" where
  "compiled cs (idx, col, v) = Cmp (is_str v \<and> \<not> cs) col (Named (param_name idx))"

definition connective_of :: "string \<Rightarrow> connective" where
  "connective_of op = (if op = ''AND'' then And else Or)"

fun tail_text :: "string \<Rightarrow> string list \<Rightarrow> string" where
  "tail_text sep [] = []"
| "tail_text sep (y # ys) = sep @ y @ tail_text sep ys"

text \<open>A second sample: a table one of whose columns is named \<open>item_id\<close>.\<close>

definition stock_table :: table where
  "stock_table =
     \<lparr>tbl_columns = [(''item_id'', ''INTEGER''), (''label'', ''TEXT'')],
      tbl_rows = [(1, [PyInt 100, PyStr ''pen'']), (2, [PyInt 200, PyStr ''ink''])],
      tbl_serial = 3\<rparr>"

definition stock_store :: store where
  "stock_store = \<lparr>tables = [''public.csv_data_table01'' \<mapsto> stock_table], log = []\<rparr>"

text \<open>
  A frame with one column of integers, one of them above the range of \<open>int64\<close>; the
  reader types such a column \<open>uint64\<close>.
\<close>

definition visits_df :: dataframe where
  "visits_df =
     \<lparr>columns = [''visits''],
      dtypes = [''uint64''],
      rows = [[PyInt 18446744073709551615], [PyInt 7]]\<rparr>"

text \<open>A frame with two labels of 64 bytes that agree in their first 63.\<close>

definition long_a :: string where
  "long_a = replicate 63 (CHR ''a'') @ ''1''"

definition long_b :: string where
  "long_b = replicate 63 (CHR ''a'') @ ''2''"

definition long_df :: dataframe where
  "long_df =
     \<lparr>columns = [long_a, long_b],
      dtypes = [''int64'', ''object''],
      rows = [[PyInt 1, PyStr ''x'']]\<rparr>"

section \<open>General lemmas\<close>

lemma join_tail: "join sep (x # xs) = x @ tail_text sep xs"
  by (induction xs arbitrary: x) simp_all

lemma execute_log: "execute q ps s = (r, s') \<Longrightarrow> log s' = log s @ [(q, ps)]"
  by (auto simp: execute_def split: sum.splits prod.splits)

lemma issued_append: "log s' = log s @ xs \<Longrightarrow> issued s s' = xs"
  by (simp add: issued_def)

lemma rollback_log: "log (rollback s s') = log s'"
  by (simp add: rollback_def)

lemma filter_unique_key:
  "distinct (map fst ps) \<Longrightarrow> (c, v) \<in> set ps \<Longrightarrow> filter (\<lambda>p. fst p = c) ps = [(c, v)]"
proof (induction ps)
  case Nil
  then show ?case by simp
next
  case (Cons p ps)
  show ?case
  proof (cases "fst p = c")
    case True
    with Cons.prems have "p = (c, v)" by (cases p) (auto simp: image_iff)
    moreover have "filter (\<lambda>p. fst p = c) ps = []"
      using Cons.prems True by (auto simp: filter_empty_conv image_iff)
    ultimately show ?thesis by simp
  next
    case False
    with Cons show ?thesis by auto
  qed
qed

lemma getitem_dtype_distinct:
  assumes "distinct (columns d)" "length (dtypes d) = length (columns d)" "i < length (columns d)"
  shows "getitem_dtype d (columns d ! i) = Inr (dtypes d ! i)"
proof -
  let ?ps = "zip (columns d) (dtypes d)"
  have "distinct (map fst ?ps)" using assms by simp
  moreover have "(columns d ! i, dtypes d ! i) \<in> set ?ps"
    using assms by (auto simp: set_zip)
  ultimately have "filter (\<lambda>p. fst p = columns d ! i) ?ps = [(columns d ! i, dtypes d ! i)]"
    by (rule filter_unique_key)
  then show ?thesis by (simp add: getitem_dtype_def)
qed

lemma column_type_distinct:
  assumes "distinct (columns d)" "length (dtypes d) = length (columns d)" "i < length (columns d)"
  shows "column_type d (columns d ! i) = Inr (pg_type (dtypes d ! i))"
  using getitem_dtype_distinct [OF assms] by (simp add: column_type_def)

section \<open>The type inferencer\<close>

lemma pg_type_cases:
  "pg_type dtype \<in> {''INTEGER'', ''NUMERIC'', ''TEXT'', ''TIMESTAMP'', ''BOOLEAN''}"
  by (simp add: pg_type_def dtype_mapping_def)

lemma pg_type_table:
  "pg_type ''int64'' = ''INTEGER''" "pg_type ''float64'' = ''NUMERIC''"
  "pg_type ''object'' = ''TEXT''" "pg_type ''datetime64[ns]'' = ''TIMESTAMP''"
  "pg_type ''bool'' = ''BOOLEAN''"
  by (simp_all add: pg_type_def dtype_mapping_def)

lemma pg_type_fallback:
  "dtype \<notin> {''int64'', ''float64'', ''object'', ''datetime64[ns]'', ''bool''} \<Longrightarrow>
    pg_type dtype = ''TEXT''"
  by (simp add: pg_type_def dtype_mapping_def)

text \<open>
  C5, as stated, fails. The program never looks at the values of a column: the type is
  looked up under the dtype the tabular reader gave the column, and only \<open>int64\<close> is
  mapped to INTEGER. The one column of the frame below holds integers only and has the
  dtype \<open>uint64\<close>; it is declared TEXT.
\<close>

theorem all_integer_column_declared_text:
  "columns visits_df = [''visits'']
   \<and> map hd (rows visits_df) = [PyInt 18446744073709551615, PyInt 7]
   \<and> list_all is_int (map hd (rows visits_df))
   \<and> getitem_dtype visits_df ''visits'' = Inr ''uint64''
   \<and> column_type visits_df ''visits'' = Inr ''TEXT''"
  by code_simp

text \<open>
  C5, amended. The type inferencer is a total function of the column's dtype: it answers
  with one of the five relational types, INTEGER for \<open>int64\<close>, NUMERIC for
  \<open>float64\<close>, TEXT for \<open>object\<close>, TIMESTAMP for \<open>datetime64[ns]\<close>, BOOLEAN for
  \<open>bool\<close>, and TEXT for every other dtype. On a frame with distinct labels and one
  dtype per label the lookup of a column's dtype does not fail, so every column of the
  frame gets the type of its dtype.
\<close>

theorem type_inferencer_total:
  "pg_type dtype \<in> {''INTEGER'', ''NUMERIC'', ''TEXT'', ''TIMESTAMP'', ''BOOLEAN''}
   \<and> pg_type ''int64'' = ''INTEGER''
   \<and> pg_type ''float64'' = ''NUMERIC''
   \<and> pg_type ''object'' = ''TEXT''
   \<and> pg_type ''datetime64[ns]'' = ''TIMESTAMP''
   \<and> pg_type ''bool'' = ''BOOLEAN''
   \<and> (dtype \<notin> {''int64'', ''float64'', ''object'', ''datetime64[ns]'', ''bool''} \<longrightarrow>
        pg_type dtype = ''TEXT'')
   \<and> (distinct (columns d) \<and> length (dtypes d) = length (columns d) \<and> i < length (columns d) \<longrightarrow>
        column_type d (columns d ! i) = Inr (pg_type (dtypes d ! i)))"
  using pg_type_cases [of dtype] pg_type_table pg_type_fallback [of dtype]
    column_type_distinct [of d i]
  by blast

theorem type_inferencer_total_witness:
  "pg_type ''uint64'' = ''TEXT''
   \<and> column_type sample_df ''age'' = Inr ''INTEGER''
   \<and> column_type sample_df ''city'' = Inr ''TEXT''"
proof -
  have shape: "distinct (columns sample_df) \<and> length (dtypes sample_df) = length (columns sample_df)"
    by (simp add: sample_df_def)
  have other: "''uint64'' \<notin> {''int64'', ''float64'', ''object'', ''datetime64[ns]'', ''bool''}"
    by simp
  have at: "columns sample_df ! 1 = ''age''" "dtypes sample_df ! 1 = ''int64''"
    "columns sample_df ! 2 = ''city''" "dtypes sample_df ! 2 = ''object''"
    "(1 :: nat) < length (columns sample_df)" "(2 :: nat) < length (columns sample_df)"
    by (simp_all add: sample_df_def)
  from type_inferencer_total [of "''uint64''" sample_df 1] other shape at
  have a: "pg_type ''uint64'' = ''TEXT''" "column_type sample_df ''age'' = Inr ''INTEGER''"
    by metis+
  from type_inferencer_total [of "''uint64''" sample_df 2] shape at
  have b: "column_type sample_df ''city'' = Inr ''TEXT''"
    by metis
  from a b show ?thesis by blast
qed

section \<open>The schema builder\<close>

lemma column_types_ok:
  assumes "\<And>c. c \<in> set cs \<Longrightarrow> column_type d c = Inr (f c)"
  shows "column_types d cs = Inr (map (\<lambda>c. (c, f c)) cs)"
  using assms by (induction cs) simp_all

lemma column_types_distinct:
  assumes "distinct (columns d)" "length (dtypes d) = length (columns d)"
  shows "column_types d (columns d) = Inr (zip (columns d) (map pg_type (dtypes d)))"
proof -
  define f where "f c = pg_type (the (map_of (zip (columns d) (dtypes d)) c))" for c
  have fi: "f (columns d ! i) = pg_type (dtypes d ! i)" if "i < length (columns d)" for i
    using that assms by (simp add: f_def map_of_zip_nth)
  have f: "column_type d c = Inr (f c)" if "c \<in> set (columns d)" for c
  proof -
    from that obtain i where i: "i < length (columns d)" "columns d ! i = c"
      by (auto simp: in_set_conv_nth)
    then show ?thesis using column_type_distinct [OF assms i(1)] fi [OF i(1)] by simp
  qed
  have "map (\<lambda>c. (c, f c)) (columns d) = zip (columns d) (map pg_type (dtypes d))"
    using assms(2) fi by (intro nth_equalityI) simp_all
  with column_types_ok [of "columns d" d f] f show ?thesis by simp
qed

lemma create_table_query_distinct:
  assumes "\<not> empty_df d" "distinct (columns d)" "length (dtypes d) = length (columns d)"
  shows "create_table_query (self\<lparr>df := Some d\<rparr>) =
    Inr (CreateTable (target self) (zip (columns d) (map pg_type (dtypes d))))"
  using assms column_types_distinct [of d] by (simp add: create_table_query_def target_def)

lemma create_table_issued:
  assumes "create_table_query self = Inr q"
  shows "issued s (snd (create_table_with_id self s)) = [(q, NoParams)]"
proof -
  obtain r s' where ex: "execute q NoParams s = (r, s')"
    by (cases "execute q NoParams s")
  from execute_log [OF ex] have l: "log s' = log s @ [(q, NoParams)]" .
  have "log (snd (create_table_with_id self s)) = log s'"
    using assms ex by (cases r) (simp_all add: create_table_with_id_def rollback_log)
  with l show ?thesis by (simp add: issued_append)
qed

lemma create_table_text:
  "sql_text (CreateTable t (zip cols tys)) =
     ''\<newline>'' @ indent 12 @ ''CREATE TABLE IF NOT EXISTS '' @ t @ '' (\<newline>'' @ indent 16 @
     ''_csv_import_id_ SERIAL PRIMARY KEY'' @
     tail_text '', '' (map2 (\<lambda>c ty. CHR 0x22 # c @ CHR 0x22 # '' '' @ ty) cols tys) @
     ''\<newline>'' @ indent 12 @ '')\<newline>'' @ indent 8"
  by (simp add: column_definitions_def join_tail quoted_def pk_column_def)

text \<open>
  C6, as stated, fails. The schema builder makes no check for colliding identifiers. The two
  labels of the frame below differ, and the store, which keeps the first 63 bytes of an
  identifier, takes them for one name. The builder emits the creation statement with both
  columns. On a store that already holds the target table (the append policy) the statement
  leaves the table as it is and the builder returns without an error; on a store without
  the table it is the store that refuses the statement.
\<close>

theorem colliding_labels_not_rejected:
  "long_a \<noteq> long_b
   \<and> truncate_identifier long_a = truncate_identifier long_b
   \<and> create_table_query (gateway\<lparr>append_flag := True, df := Some long_df\<rparr>) =
       Inr (CreateTable ''public.csv_data_table01'' [(long_a, ''INTEGER''), (long_b, ''TEXT'')])
   \<and> fst (create_table_with_id (gateway\<lparr>append_flag := True, df := Some long_df\<rparr>) sample_store) = None
   \<and> fst (create_table_with_id (gateway\<lparr>df := Some long_df\<rparr>) no_tables) =
       Some (DatabaseError DuplicateColumn)"
  by code_simp

text \<open>
  C6, amended. The schema builder raises a \<open>ValueError\<close> when no data is loaded (no
  frame, or an empty one) and hands nothing to the store. It has no check for colliding
  identifiers: for every non-empty frame with distinct labels and one dtype per label it
  builds the creation statement for the target table, the columns in frame order, each
  with the type of its dtype, and hands exactly this statement to the store. The text of
  the statement gives the definition of the synthetic key first and then, each after a
  comma, every column between double quotes followed by its type.
\<close>

theorem schema_builder_outcomes:
  "create_table_with_id (self\<lparr>df := None\<rparr>) s = (Some (ValueError ''No data loaded from CSV''), s)
   \<and> (empty_df d \<longrightarrow>
        create_table_with_id (self\<lparr>df := Some d\<rparr>) s =
          (Some (ValueError ''No data loaded from CSV''), s))
   \<and> (\<not> empty_df d \<and> distinct (columns d) \<and> length (dtypes d) = length (columns d) \<longrightarrow>
        create_table_query (self\<lparr>df := Some d\<rparr>) =
          Inr (CreateTable (target self) (zip (columns d) (map pg_type (dtypes d))))
        \<and> issued s (snd (create_table_with_id (self\<lparr>df := Some d\<rparr>) s)) =
            [(CreateTable (target self) (zip (columns d) (map pg_type (dtypes d))), NoParams)]
        \<and> sql_text (CreateTable (target self) (zip (columns d) (map pg_type (dtypes d)))) =
            ''\<newline>'' @ indent 12 @ ''CREATE TABLE IF NOT EXISTS '' @ target self @ '' (\<newline>'' @
            indent 16 @ ''_csv_import_id_ SERIAL PRIMARY KEY'' @
            tail_text '', ''
              (map2 (\<lambda>c dtype. CHR 0x22 # c @ CHR 0x22 # '' '' @ pg_type dtype) (columns d) (dtypes d)) @
            ''\<newline>'' @ indent 12 @ '')\<newline>'' @ indent 8)"
proof -
  have 1: "create_table_with_id (self\<lparr>df := None\<rparr>) s =
      (Some (ValueError ''No data loaded from CSV''), s)"
    by (simp add: create_table_with_id_def create_table_query_def)
  have 2: "create_table_with_id (self\<lparr>df := Some d\<rparr>) s =
      (Some (ValueError ''No data loaded from CSV''), s)" if "empty_df d"
    using that by (simp add: create_table_with_id_def create_table_query_def)
  have 3: "create_table_query (self\<lparr>df := Some d\<rparr>) =
          Inr (CreateTable (target self) (zip (columns d) (map pg_type (dtypes d))))
        \<and> issued s (snd (create_table_with_id (self\<lparr>df := Some d\<rparr>) s)) =
            [(CreateTable (target self) (zip (columns d) (map pg_type (dtypes d))), NoParams)]"
    if "\<not> empty_df d" "distinct (columns d)" "length (dtypes d) = length (columns d)"
    using create_table_query_distinct [OF that] create_table_issued by blast
  have "map2 (\<lambda>c ty. CHR 0x22 # c @ CHR 0x22 # '' '' @ ty) (columns d) (map pg_type (dtypes d)) =
      map2 (\<lambda>c dtype. CHR 0x22 # c @ CHR 0x22 # '' '' @ pg_type dtype) (columns d) (dtypes d)"
    by (simp add: zip_map2 case_prod_beta)
  with create_table_text [of "target self" "columns d" "map pg_type (dtypes d)"]
  have 4: "sql_text (CreateTable (target self) (zip (columns d) (map pg_type (dtypes d)))) =
            ''\<newline>'' @ indent 12 @ ''CREATE TABLE IF NOT EXISTS '' @ target self @ '' (\<newline>'' @
            indent 16 @ ''_csv_import_id_ SERIAL PRIMARY KEY'' @
            tail_text '', ''
              (map2 (\<lambda>c dtype. CHR 0x22 # c @ CHR 0x22 # '' '' @ pg_type dtype) (columns d) (dtypes d)) @
            ''\<newline>'' @ indent 12 @ '')\<newline>'' @ indent 8"
    by (simp only:)
  from 1 2 3 4 show ?thesis by blast
qed

theorem schema_builder_outcomes_witness:
  "create_table_with_id (gateway\<lparr>df := Some \<lparr>columns = [''a''], dtypes = [''int64''], rows = []\<rparr>\<rparr>)
       no_tables = (Some (ValueError ''No data loaded from CSV''), no_tables)
   \<and> create_table_query (gateway\<lparr>df := Some sample_df\<rparr>) =
       Inr (CreateTable ''public.csv_data_table01''
              [(''name'', ''TEXT''), (''age'', ''INTEGER''), (''city'', ''TEXT'')])
   \<and> issued no_tables (snd (create_table_with_id (gateway\<lparr>df := Some sample_df\<rparr>) no_tables)) =
       [(CreateTable ''public.csv_data_table01''
           [(''name'', ''TEXT''), (''age'', ''INTEGER''), (''city'', ''TEXT'')], NoParams)]
   \<and> sql_text (CreateTable ''public.csv_data_table01''
         [(''name'', ''TEXT''), (''age'', ''INTEGER''), (''city'', ''TEXT'')]) =
       ''\<newline>'' @ indent 12 @ ''CREATE TABLE IF NOT EXISTS public.csv_data_table01 (\<newline>'' @
       indent 16 @ ''_csv_import_id_ SERIAL PRIMARY KEY, '' @
       [CHR 0x22] @ ''name'' @ [CHR 0x22] @ '' TEXT, '' @
       [CHR 0x22] @ ''age'' @ [CHR 0x22] @ '' INTEGER, '' @
       [CHR 0x22] @ ''city'' @ [CHR 0x22] @ '' TEXT'' @
       ''\<newline>'' @ indent 12 @ '')\<newline>'' @ indent 8"
proof -
  have e: "empty_df \<lparr>columns = [''a''], dtypes = [''int64''], rows = []\<rparr>"
    by (simp add: empty_df_def)
  have shape: "\<not> empty_df sample_df \<and> distinct (columns sample_df)
      \<and> length (dtypes sample_df) = length (columns sample_df)"
    by (simp add: empty_df_def sample_df_def)
  have cols: "zip (columns sample_df) (map pg_type (dtypes sample_df)) =
      [(''name'', ''TEXT''), (''age'', ''INTEGER''), (''city'', ''TEXT'')]"
    by (simp add: sample_df_def pg_type_def dtype_mapping_def)
  have tg: "target gateway = ''public.csv_data_table01''"
    by (simp add: target_def gateway_def)
  have shown: "''\<newline>'' @ indent 12 @ ''CREATE TABLE IF NOT EXISTS '' @ ''public.csv_data_table01'' @
      '' (\<newline>'' @ indent 16 @ ''_csv_import_id_ SERIAL PRIMARY KEY'' @
      tail_text '', ''
        (map2 (\<lambda>c dtype. CHR 0x22 # c @ CHR 0x22 # '' '' @ pg_type dtype)
           (columns sample_df) (dtypes sample_df)) @
      ''\<newline>'' @ indent 12 @ '')\<newline>'' @ indent 8 =
      ''\<newline>'' @ indent 12 @ ''CREATE TABLE IF NOT EXISTS public.csv_data_table01 (\<newline>'' @
      indent 16 @ ''_csv_import_id_ SERIAL PRIMARY KEY, '' @
      [CHR 0x22] @ ''name'' @ [CHR 0x22] @ '' TEXT, '' @
      [CHR 0x22] @ ''age'' @ [CHR 0x22] @ '' INTEGER, '' @
      [CHR 0x22] @ ''city'' @ [CHR 0x22] @ '' TEXT'' @
      ''\<newline>'' @ indent 12 @ '')\<newline>'' @ indent 8"
    by (simp add: sample_df_def pg_type_def dtype_mapping_def)
  from schema_builder_outcomes
      [of gateway no_tables "\<lparr>columns = [''a''], dtypes = [''int64''], rows = []\<rparr>"] e
  have a: "create_table_with_id
      (gateway\<lparr>df := Some \<lparr>columns = [''a''], dtypes = [''int64''], rows = []\<rparr>\<rparr>) no_tables =
      (Some (ValueError ''No data loaded from CSV''), no_tables)"
    by blast
  from schema_builder_outcomes [of gateway no_tables sample_df] shape
  have b: "create_table_query (gateway\<lparr>df := Some sample_df\<rparr>) =
          Inr (CreateTable (target gateway) (zip (columns sample_df) (map pg_type (dtypes sample_df))))"
    and c: "issued no_tables (snd (create_table_with_id (gateway\<lparr>df := Some sample_df\<rparr>) no_tables)) =
            [(CreateTable (target gateway) (zip (columns sample_df) (map pg_type (dtypes sample_df))),
              NoParams)]"
    and d: "sql_text (CreateTable (target gateway) (zip (columns sample_df) (map pg_type (dtypes sample_df)))) =
            ''\<newline>'' @ indent 12 @ ''CREATE TABLE IF NOT EXISTS '' @ target gateway @ '' (\<newline>'' @
            indent 16 @ ''_csv_import_id_ SERIAL PRIMARY KEY'' @
            tail_text '', ''
              (map2 (\<lambda>c dtype. CHR 0x22 # c @ CHR 0x22 # '' '' @ pg_type dtype)
                 (columns sample_df) (dtypes sample_df)) @
            ''\<newline>'' @ indent 12 @ '')\<newline>'' @ indent 8"
    by blast+
  from d have d': "sql_text (CreateTable ''public.csv_data_table01''
         [(''name'', ''TEXT''), (''age'', ''INTEGER''), (''city'', ''TEXT'')]) =
       ''\<newline>'' @ indent 12 @ ''CREATE TABLE IF NOT EXISTS public.csv_data_table01 (\<newline>'' @
       indent 16 @ ''_csv_import_id_ SERIAL PRIMARY KEY, '' @
       [CHR 0x22] @ ''name'' @ [CHR 0x22] @ '' TEXT, '' @
       [CHR 0x22] @ ''age'' @ [CHR 0x22] @ '' INTEGER, '' @
       [CHR 0x22] @ ''city'' @ [CHR 0x22] @ '' TEXT'' @
       ''\<newline>'' @ indent 12 @ '')\<newline>'' @ indent 8"
    unfolding cols tg shown .
  from a b c d' show ?thesis unfolding cols tg by blast
qed

section \<open>The bulk loader\<close>

lemma insert_rows_log_ok:
  "insert_rows q rws s = (None, s') \<Longrightarrow> log s' = log s @ map (\<lambda>row. (q, Tuple row)) rws"
proof (induction rws arbitrary: s)
  case Nil
  then show ?case by simp
next
  case (Cons row rws)
  obtain r s1 where ex: "execute q (Tuple row) s = (r, s1)" by (cases "execute q (Tuple row) s")
  from Cons.prems ex obtain rs where r: "r = Inr rs" and rec: "insert_rows q rws s1 = (None, s')"
    by (cases r) auto
  from Cons.IH [OF rec] execute_log [OF ex] show ?case by simp
qed

lemma insert_rows_log_prefix:
  "\<exists>k. log (snd (insert_rows q rws s)) = log s @ map (\<lambda>row. (q, Tuple row)) (take k rws)"
proof (induction rws arbitrary: s)
  case Nil
  then show ?case by simp
next
  case (Cons row rws)
  obtain r s1 where ex: "execute q (Tuple row) s = (r, s1)" by (cases "execute q (Tuple row) s")
  note l1 = execute_log [OF ex]
  show ?case
  proof (cases r)
    case (Inl e)
    with ex have "insert_rows q (row # rws) s = (Some e, s1)" by simp
    with l1 have "log (snd (insert_rows q (row # rws) s)) = log s @ map (\<lambda>row. (q, Tuple row)) (take (Suc 0) (row # rws))"
      by simp
    then show ?thesis by blast
  next
    case (Inr rs)
    with ex have eq: "insert_rows q (row # rws) s = insert_rows q rws s1" by simp
    from Cons.IH [of s1] obtain k where
      "log (snd (insert_rows q rws s1)) = log s1 @ map (\<lambda>row. (q, Tuple row)) (take k rws)" by blast
    with l1 eq have "log (snd (insert_rows q (row # rws) s)) = log s @ map (\<lambda>row. (q, Tuple row)) (take (Suc k) (row # rws))"
      by simp
    then show ?thesis by blast
  qed
qed

lemma insert_data_issued_prefix:
  assumes "df self = Some d"
  shows "\<exists>k. issued s (snd (insert_data self s)) =
    map (\<lambda>row. (insert_query self d, Tuple row)) (take k (rows d))"
proof (cases "empty_df d \<or> columns d = []")
  case True
  then have "insert_data self s = (None, s)" using assms by (auto simp: insert_data_def)
  then have "issued s (snd (insert_data self s)) =
      map (\<lambda>row. (insert_query self d, Tuple row)) (take 0 (rows d))"
    by (simp add: issued_def)
  then show ?thesis by blast
next
  case False
  obtain e s1 where r: "insert_rows (insert_query self d) (rows d) s = (e, s1)"
    by (cases "insert_rows (insert_query self d) (rows d) s")
  from insert_rows_log_prefix [of "insert_query self d" "rows d" s] r obtain k where
    k: "log s1 = log s @ map (\<lambda>row. (insert_query self d, Tuple row)) (take k (rows d))"
    by auto
  have "log (snd (insert_data self s)) = log s1"
    using r False assms by (cases e) (simp_all add: insert_data_def rollback_log)
  with k have "issued s (snd (insert_data self s)) =
      map (\<lambda>row. (insert_query self d, Tuple row)) (take k (rows d))"
    by (simp add: issued_append)
  then show ?thesis by blast
qed

lemma insert_data_issued_ok:
  assumes "df self = Some d" "\<not> empty_df d" "insert_data self s = (None, s')"
  shows "issued s s' = map (\<lambda>row. (insert_query self d, Tuple row)) (rows d)"
proof -
  have nonempty: "columns d \<noteq> []" using assms(2) by (simp add: empty_df_def)
  obtain e s1 where r: "insert_rows (insert_query self d) (rows d) s = (e, s1)"
    by (cases "insert_rows (insert_query self d) (rows d) s")
  with assms nonempty have "e = None" "s1 = s'"
    by (cases e; simp add: insert_data_def)+
  with r insert_rows_log_ok [of "insert_query self d" "rows d" s s'] show ?thesis
    by (simp add: issued_append)
qed

text \<open>
  C9. Every statement the bulk loader hands to the store is the insert statement of the
  frame, with one row of the frame as its tuple of positional parameters. The statement is
  built from the target and the column labels alone: for two frames with the same labels
  (and the same target) every statement of one load has the text of every statement of
  the other, whatever the rows hold. A load that completes has handed over exactly one
  such statement per row, in row order.
\<close>

theorem insert_statement_from_columns_only:
  assumes "df self = Some d" and "df self' = Some d'"
    and "target self = target self'" and "columns d = columns d'"
  shows "(\<forall>x \<in> set (issued s (snd (insert_data self s))).
            fst x = insert_query self d \<and> snd x \<in> Tuple ` set (rows d))
     \<and> (\<forall>x \<in> set (issued s (snd (insert_data self s))).
          \<forall>y \<in> set (issued s' (snd (insert_data self' s'))). sql_text (fst x) = sql_text (fst y))
     \<and> (fst (insert_data self s) = None \<and> \<not> empty_df d \<longrightarrow>
          issued s (snd (insert_data self s)) =
            map (\<lambda>row. (insert_query self d, Tuple row)) (rows d))
     \<and> sql_text (insert_query self d) = sql_text (InsertInto (target self) (columns d))"
proof -
  from insert_data_issued_prefix [OF assms(1), of s] obtain k where
    k: "issued s (snd (insert_data self s)) =
      map (\<lambda>row. (insert_query self d, Tuple row)) (take k (rows d))"
    by blast
  from insert_data_issued_prefix [OF assms(2), of s'] obtain k' where
    k': "issued s' (snd (insert_data self' s')) =
      map (\<lambda>row. (insert_query self' d', Tuple row)) (take k' (rows d'))"
    by blast
  have same: "insert_query self' d' = insert_query self d"
    using assms(3,4) by (simp add: insert_query_def)
  have a: "\<forall>x \<in> set (issued s (snd (insert_data self s))).
            fst x = insert_query self d \<and> snd x \<in> Tuple ` set (rows d)"
    unfolding k by (auto dest: in_set_takeD)
  have a': "\<forall>y \<in> set (issued s' (snd (insert_data self' s'))). fst y = insert_query self d"
    unfolding k' same by auto
  have b: "\<forall>x \<in> set (issued s (snd (insert_data self s))).
          \<forall>y \<in> set (issued s' (snd (insert_data self' s'))). sql_text (fst x) = sql_text (fst y)"
    using a a' by simp
  have c: "fst (insert_data self s) = None \<and> \<not> empty_df d \<longrightarrow>
          issued s (snd (insert_data self s)) =
            map (\<lambda>row. (insert_query self d, Tuple row)) (rows d)"
    using insert_data_issued_ok [OF assms(1), of s "snd (insert_data self s)"]
    by (metis prod.collapse)
  have d: "sql_text (insert_query self d) = sql_text (InsertInto (target self) (columns d))"
    by (simp add: insert_query_def)
  show ?thesis by (intro conjI a b c d)
qed

theorem insert_statement_from_columns_only_witness:
  "issued sample_store (snd (insert_data (gateway\<lparr>df := Some sample_df\<rparr>) sample_store)) =
     map (\<lambda>row. (insert_query (gateway\<lparr>df := Some sample_df\<rparr>) sample_df, Tuple row))
       (rows sample_df)
   \<and> sql_text (insert_query (gateway\<lparr>df := Some sample_df\<rparr>) sample_df) =
       sql_text (InsertInto ''public.csv_data_table01'' [''name'', ''age'', ''city''])"
proof -
  have h: "df (gateway\<lparr>df := Some sample_df\<rparr>) = Some sample_df" by simp
  have ok: "fst (insert_data (gateway\<lparr>df := Some sample_df\<rparr>) sample_store) = None"
    by code_simp
  have ne: "\<not> empty_df sample_df"
    by (simp add: empty_df_def sample_df_def)
  have names: "target (gateway\<lparr>df := Some sample_df\<rparr>) = ''public.csv_data_table01''"
    "columns sample_df = [''name'', ''age'', ''city'']"
    by (simp_all add: target_def gateway_def sample_df_def)
  note inst = insert_statement_from_columns_only [OF h h refl refl, of sample_store sample_store]
  from inst ok ne have
    "issued sample_store (snd (insert_data (gateway\<lparr>df := Some sample_df\<rparr>) sample_store)) =
     map (\<lambda>row. (insert_query (gateway\<lparr>df := Some sample_df\<rparr>) sample_df, Tuple row))
       (rows sample_df)"
    by blast
  moreover from inst have
    "sql_text (insert_query (gateway\<lparr>df := Some sample_df\<rparr>) sample_df) =
       sql_text (InsertInto (target (gateway\<lparr>df := Some sample_df\<rparr>)) (columns sample_df))"
    by blast
  ultimately show ?thesis unfolding names by blast
qed


section \<open>Ingestion and the row count\<close>

lemma insert_row_length:
  "insert_row t cols ps = Inr t' \<Longrightarrow> length (tbl_rows t') = Suc (length (tbl_rows t))"
  unfolding insert_row_def Let_def
  by (auto split: params.splits if_splits list.splits option.splits pyval.splits)

lemma execute_insert_count:
  assumes "execute (InsertInto (target self) cols) ps s = (Inr r, s')"
  shows "row_count self s' = Suc (row_count self s)"
proof -
  from assms obtain t t' where "tables s (target self) = Some t" "insert_row t cols ps = Inr t'"
    "tables s' (target self) = Some t'"
    by (auto simp: execute_def split: sum.splits option.splits)
  then show ?thesis using insert_row_length [of t cols ps t'] by (simp add: row_count_def)
qed

lemma insert_rows_count:
  "insert_rows (InsertInto (target self) cols) rws s = (None, s') \<Longrightarrow>
    row_count self s' = row_count self s + length rws"
proof (induction rws arbitrary: s)
  case Nil
  then show ?case by simp
next
  case (Cons row rws)
  obtain r s1 where ex: "execute (InsertInto (target self) cols) (Tuple row) s = (r, s1)"
    by (cases "execute (InsertInto (target self) cols) (Tuple row) s")
  from Cons.prems ex obtain rs where r: "r = Inr rs"
    and rec: "insert_rows (InsertInto (target self) cols) rws s1 = (None, s')"
    by (cases r) auto
  from Cons.IH [OF rec] execute_insert_count [OF ex [unfolded r]] show ?case by simp
qed

lemma insert_data_count:
  assumes "df self = Some d" "\<not> empty_df d" "insert_data self s = (None, s')"
  shows "row_count self s' = row_count self s + length (rows d)"
proof -
  have nonempty: "columns d \<noteq> []" using assms(2) by (simp add: empty_df_def)
  obtain e s1 where r: "insert_rows (insert_query self d) (rows d) s = (e, s1)"
    by (cases "insert_rows (insert_query self d) (rows d) s")
  with assms nonempty have "e = None" "s1 = s'"
    by (cases e; simp add: insert_data_def)+
  with r insert_rows_count [of self "columns d" "rows d" s s'] show ?thesis
    by (simp add: insert_query_def)
qed

lemma create_table_query_target:
  "create_table_query self = Inr q \<Longrightarrow> \<exists>cols. q = CreateTable (target self) cols"
  by (auto simp: create_table_query_def split: option.splits if_splits sum.splits)

lemma create_table_count:
  assumes "create_table_with_id self s = (None, s')"
  shows "row_count self s' = row_count self s"
proof -
  from assms obtain q where q: "create_table_query self = Inr q"
    by (auto simp: create_table_with_id_def split: sum.splits)
  then obtain cols where cols: "q = CreateTable (target self) cols"
    using create_table_query_target by blast
  from assms q cols obtain r where "execute (CreateTable (target self) cols) NoParams s = (Inr r, s')"
    by (auto simp: create_table_with_id_def split: sum.splits prod.splits)
  then show ?thesis
    by (auto simp: execute_def row_count_def split: option.splits if_splits)
qed

lemma drop_table_count:
  "drop_table_if_exists self s = (e, s') \<Longrightarrow> e = None \<and> row_count self s' = 0"
  by (auto simp: drop_table_if_exists_def execute_def row_count_def)

lemma drop_table_log:
  "drop_table_if_exists self s = (e, s') \<Longrightarrow> log s' = log s @ [(DropTable (target self), NoParams)]"
  by (auto simp: drop_table_if_exists_def execute_def)

lemma create_table_log:
  assumes "create_table_with_id self s = (None, s')"
  shows "\<exists>q. create_table_query self = Inr q \<and> log s' = log s @ [(q, NoParams)]"
proof -
  from assms obtain q where q: "create_table_query self = Inr q"
    by (auto simp: create_table_with_id_def split: sum.splits)
  with assms obtain r where "execute q NoParams s = (Inr r, s')"
    by (auto simp: create_table_with_id_def split: sum.splits prod.splits)
  from execute_log [OF this] q show ?thesis by simp
qed

lemma load_csv_nonempty: "load_csv csv = Inr d \<Longrightarrow> \<not> empty_df d"
  by (cases csv) (auto split: if_splits)

lemma init_steps:
  assumes "init sch tn (Some csv) app s = (Inr self, s')"
  shows "\<exists>d s1 s2. load_csv csv = Inr d
    \<and> self = \<lparr>schema = sch, table_name = tn, append_flag = app, df = Some d\<rparr>
    \<and> (if app then s1 = s else drop_table_if_exists self s = (None, s1))
    \<and> create_table_with_id self s1 = (None, s2)
    \<and> insert_data self s2 = (None, s')"
proof -
  from assms obtain d where ld: "load_csv csv = Inr d"
    by (auto simp: init_def split: sum.splits)
  define self0 where "self0 = \<lparr>schema = sch, table_name = tn, append_flag = app, df = Some d\<rparr>"
  obtain e1 s1 where dr: "(if \<not> app then drop_table_if_exists self0 s else (None, s)) = (e1, s1)"
    by (cases "if \<not> app then drop_table_if_exists self0 s else (None, s)")
  obtain e2 s2 where cr: "create_table_with_id self0 s1 = (e2, s2)"
    by (cases "create_table_with_id self0 s1")
  obtain e3 s3 where ins: "insert_data self0 s2 = (e3, s3)"
    by (cases "insert_data self0 s2")
  have unfolded: "init sch tn (Some csv) app s =
    (case e1 of Some e \<Rightarrow> (Inl e, s1) | None \<Rightarrow>
       (case e2 of Some e \<Rightarrow> (Inl e, s2) | None \<Rightarrow>
          (case e3 of Some e \<Rightarrow> (Inl e, s3) | None \<Rightarrow> (Inr self0, s3))))"
    apply (unfold init_def Let_def)
    apply (simp only: ld sum.case option.case)
    apply (fold self0_def)
    apply (simp only: dr cr ins prod.case)
    done
  with assms have all: "e1 = None" "e2 = None" "e3 = None" "self = self0" "s' = s3"
    by (auto split: option.splits)
  have "if app then s1 = s else drop_table_if_exists self0 s = (None, s1)"
    using dr all(1) by (auto split: if_splits)
  with ld cr ins all show ?thesis unfolding self0_def by blast
qed

lemma insert_data_log_ok:
  assumes "df self = Some d" "\<not> empty_df d" "insert_data self s = (None, s')"
  shows "log s' = log s @ map (\<lambda>row. (insert_query self d, Tuple row)) (rows d)"
proof -
  have nonempty: "columns d \<noteq> []" using assms(2) by (simp add: empty_df_def)
  obtain e s1 where r: "insert_rows (insert_query self d) (rows d) s = (e, s1)"
    by (cases "insert_rows (insert_query self d) (rows d) s")
  with assms nonempty have "e = None" "s1 = s'"
    by (cases e; simp add: insert_data_def)+
  with r insert_rows_log_ok [of "insert_query self d" "rows d" s s'] show ?thesis
    by simp
qed

lemma init_outcome:
  assumes "init sch tn (Some csv) app s = (Inr self, s')"
  shows "\<exists>d q. load_csv csv = Inr d \<and> df self = Some d \<and> create_table_query self = Inr q
    \<and> row_count self s' = (if app then row_count self s else 0) + length (rows d)
    \<and> issued s s' =
        (if app then [] else [(DropTable (target self), NoParams)]) @ [(q, NoParams)] @
        map (\<lambda>row. (insert_query self d, Tuple row)) (rows d)"
proof -
  from init_steps [OF assms] obtain d s1 s2 where ld: "load_csv csv = Inr d"
    and self: "self = \<lparr>schema = sch, table_name = tn, append_flag = app, df = Some d\<rparr>"
    and dr: "if app then s1 = s else drop_table_if_exists self s = (None, s1)"
    and cr: "create_table_with_id self s1 = (None, s2)"
    and ins: "insert_data self s2 = (None, s')"
    by blast
  have dfs: "df self = Some d" using self by simp
  have ne: "\<not> empty_df d" using ld by (rule load_csv_nonempty)
  from create_table_log [OF cr] obtain q where q: "create_table_query self = Inr q"
    and l2: "log s2 = log s1 @ [(q, NoParams)]" by blast
  have c1: "row_count self s1 = (if app then row_count self s else 0)"
    using dr drop_table_count [of self s None s1] by (auto split: if_splits)
  have l1: "log s1 = log s @ (if app then [] else [(DropTable (target self), NoParams)])"
    using dr drop_table_log [of self s None s1] by (auto split: if_splits)
  have c2: "row_count self s2 = row_count self s1" using cr by (rule create_table_count)
  have c3: "row_count self s' = row_count self s2 + length (rows d)"
    using dfs ne ins by (rule insert_data_count)
  have l3: "log s' = log s2 @ map (\<lambda>row. (insert_query self d, Tuple row)) (rows d)"
    using dfs ne ins by (rule insert_data_log_ok)
  have "issued s s' =
        (if app then [] else [(DropTable (target self), NoParams)]) @ [(q, NoParams)] @
        map (\<lambda>row. (insert_query self d, Tuple row)) (rows d)"
    using l1 l2 l3 by (simp add: issued_def)
  with ld dfs q c1 c2 c3 show ?thesis by simp
qed

text \<open>Loading the sample frame into a store without tables gives the sample table.\<close>

lemma sample_ingest:
  "tables (snd (init ''public'' (Some ''csv_data_table01'') (Some (Parsed sample_df)) False no_tables))
     ''public.csv_data_table01'' = Some sample_table"
  by code_simp

text \<open>
  C1, as stated, fails: with the append policy the table is not dropped and the creation
  statement leaves an existing table as it is, so a table that held the three sample rows
  holds six after the same three are loaded again.
\<close>

theorem ingest_row_count_counterexample:
  "fst (init ''public'' (Some ''csv_data_table01'') (Some (Parsed sample_df)) True sample_store) =
     Inr (gateway\<lparr>append_flag := True, df := Some sample_df\<rparr>)
   \<and> row_count gateway
       (snd (init ''public'' (Some ''csv_data_table01'') (Some (Parsed sample_df)) True sample_store)) = 6
   \<and> length (rows sample_df) = 3"
  by code_simp

text \<open>
  A run need not complete. A source with a column labelled like the synthetic key is
  refused by the store at the creation statement; under the overwrite policy the table is
  then absent.
\<close>

lemma ingest_key_label_refused:
  "fst (init ''public'' (Some ''csv_data_table01'')
         (Some (Parsed \<lparr>columns = [''_csv_import_id_'', ''name''], dtypes = [''int64'', ''object''],
                         rows = [[PyInt 1, PyStr ''John'']]\<rparr>)) False sample_store) =
     Inl (DatabaseError DuplicateColumn)
   \<and> row_count gateway
       (snd (init ''public'' (Some ''csv_data_table01'')
         (Some (Parsed \<lparr>columns = [''_csv_import_id_'', ''name''], dtypes = [''int64'', ''object''],
                         rows = [[PyInt 1, PyStr ''John'']]\<rparr>)) False sample_store)) = 0"
  by code_simp

text \<open>
  C1, amended. When the run of the constructor completes, the target table holds the rows
  it held before the load (none under the overwrite policy, which drops the table first)
  plus one row per row of the source; the statements handed to the store are the drop
  (unless appending), the creation, and then exactly one insert per source row, in source
  order.
\<close>

theorem ingest_row_count:
  "init sch tn (Some csv) app s = (Inr self, s') \<longrightarrow>
     (\<exists>d q. load_csv csv = Inr d \<and> df self = Some d \<and> create_table_query self = Inr q
        \<and> row_count self s' = (if app then row_count self s else 0) + length (rows d)
        \<and> issued s s' =
            (if app then [] else [(DropTable (target self), NoParams)]) @ [(q, NoParams)] @
            map (\<lambda>row. (insert_query self d, Tuple row)) (rows d))"
  using init_outcome [of sch tn csv app s self s'] by blast

theorem ingest_row_count_witness:
  "fst (init ''public'' (Some ''csv_data_table01'') (Some (Parsed sample_df)) True sample_store) =
     Inr (gateway\<lparr>append_flag := True, df := Some sample_df\<rparr>)
   \<and> row_count (gateway\<lparr>append_flag := True, df := Some sample_df\<rparr>)
       (snd (init ''public'' (Some ''csv_data_table01'') (Some (Parsed sample_df)) True sample_store)) =
     row_count (gateway\<lparr>append_flag := True, df := Some sample_df\<rparr>) sample_store
       + length (rows sample_df)
   \<and> fst (init ''public'' (Some ''csv_data_table01'') (Some (Parsed sample_df)) False sample_store) =
     Inr (gateway\<lparr>df := Some sample_df\<rparr>)
   \<and> row_count (gateway\<lparr>df := Some sample_df\<rparr>)
       (snd (init ''public'' (Some ''csv_data_table01'') (Some (Parsed sample_df)) False sample_store)) =
     length (rows sample_df)"
proof -
  let ?append = "init ''public'' (Some ''csv_data_table01'') (Some (Parsed sample_df)) True sample_store"
  let ?overwrite = "init ''public'' (Some ''csv_data_table01'') (Some (Parsed sample_df)) False sample_store"
  let ?self = "gateway\<lparr>append_flag := True, df := Some sample_df\<rparr>"
  let ?self' = "gateway\<lparr>df := Some sample_df\<rparr>"
  have a: "fst ?append = Inr ?self" by code_simp
  then have run: "?append = (Inr ?self, snd ?append)" by (metis prod.collapse)
  have o: "fst ?overwrite = Inr ?self'" by code_simp
  then have run': "?overwrite = (Inr ?self', snd ?overwrite)" by (metis prod.collapse)
  have ld: "load_csv (Parsed sample_df) = Inr sample_df" by code_simp
  from ingest_row_count [of "''public''" "Some ''csv_data_table01''" "Parsed sample_df"
      True sample_store ?self "snd ?append"] run ld
  have c: "row_count ?self (snd ?append) = row_count ?self sample_store + length (rows sample_df)"
    by auto
  from ingest_row_count [of "''public''" "Some ''csv_data_table01''" "Parsed sample_df"
      False sample_store ?self' "snd ?overwrite"] run' ld
  have c': "row_count ?self' (snd ?overwrite) = length (rows sample_df)"
    by auto
  from a c o c' show ?thesis by blast
qed

section \<open>The predicate compiler\<close>

lemma strip_prefix_append: "strip_prefix p (p @ s) = Some s"
  by (induction p) simp_all

lemma read_ident_plain:
  assumes "CHR 0x22 \<notin> set col" "rest = [] \<or> hd rest \<noteq> CHR 0x22"
  shows "read_ident (col @ CHR 0x22 # rest) = Some (col, rest)"
  using assms
proof (induction col)
  case Nil
  then show ?case by (cases rest) auto
next
  case (Cons c col)
  then have "read_ident (col @ CHR 0x22 # rest) = Some (col, rest)" by simp
  moreover obtain c' cs where "col @ CHR 0x22 # rest = c' # cs" by (cases col) auto
  ultimately show ?case using Cons.prems by auto
qed

lemma digit_word: "n < 10 \<Longrightarrow> word_char (''0123456789'' ! n)"
proof -
  assume "n < 10"
  then have "n \<in> {0, 1, 2, 3, 4, 5, 6, 7, 8, 9}" by auto
  then show ?thesis by (elim insertE emptyE) (simp_all add: word_char_def)
qed

lemma str_of_nat_word: "list_all word_char (str_of_nat n)"
proof (induction n rule: str_of_nat.induct)
  case (1 n)
  show ?case
  proof (cases "n < 10")
    case True
    then show ?thesis by (simp add: str_of_nat.simps [of n] digit_word)
  next
    case False
    then have "list_all word_char (str_of_nat (n div 10))" by (rule "1.IH")
    moreover have "word_char (''0123456789'' ! (n mod 10))" by (rule digit_word) simp
    ultimately show ?thesis using False by (simp add: str_of_nat.simps [of n])
  qed
qed

lemma param_name_word: "list_all word_char (param_name idx)"
  using str_of_nat_word [of idx] by (simp add: param_name_def word_char_def)

lemma param_name_nonempty: "param_name idx \<noteq> []"
  by (simp add: param_name_def)

lemma read_named_param:
  assumes "rest = [] \<or> \<not> word_char (hd rest)"
  shows "read_placeholder NamedStyle (CHR '':'' # param_name idx @ rest) =
    Some (Named (param_name idx), rest)"
proof -
  have all: "\<forall>c \<in> set (param_name idx). word_char c"
    using param_name_word [of idx] by (simp add: list_all_iff)
  have "takeWhile word_char (param_name idx @ rest) = param_name idx"
    using assms all by (cases rest) simp_all
  moreover have "dropWhile word_char (param_name idx @ rest) = rest"
    using assms all by (cases rest) simp_all
  ultimately show ?thesis using param_name_nonempty [of idx] by simp
qed

lemma parse_search_clause:
  assumes "col \<noteq> []" "CHR 0x22 \<notin> set col"
  shows "parse_comparison Pyformat (search_clause cs (col, v)) =
    Some (Cmp (is_str v \<and> \<not> cs) col Positional, [])"
  using assms by (simp add: parse_comparison_def search_clause_def read_ident_plain)

lemma parse_where_clause:
  assumes "col \<noteq> []" "CHR 0x22 \<notin> set col"
  shows "parse_comparison NamedStyle (where_clause cs (idx, col, v)) =
    Some (Cmp (is_str v \<and> \<not> cs) col (Named (param_name idx)), [])"
proof -
  have ph1: "read_placeholder NamedStyle (CHR '':'' # param_name idx @ '')'') =
      Some (Named (param_name idx), '')'')"
    by (rule read_named_param) (simp add: word_char_def)
  have ph2: "read_placeholder NamedStyle (CHR '':'' # param_name idx @ []) =
      Some (Named (param_name idx), [])"
    by (rule read_named_param) simp
  show ?thesis
    using assms ph1 ph2
    by (simp add: parse_comparison_def where_clause_def read_ident_plain
        del: read_placeholder.simps)
qed

lemma clause_texts:
  "search_clause cs (col, v) =
     (if is_str v \<and> \<not> cs then ''LOWER('' @ quoted col @ '') = LOWER(%s)''
      else quoted col @ '' = %s'')"
  "where_clause cs (idx, col, v) =
     (if is_str v \<and> \<not> cs then ''LOWER('' @ quoted col @ '') = LOWER(:'' @ param_name idx @ '')''
      else quoted col @ '' = :'' @ param_name idx)"
  by (simp_all add: search_clause_def where_clause_def quoted_def)

lemma test_cmp_folded:
  "test_cmp r (Cmp True col ph) (PyStr b) =
     (\<exists>a. map_of r col = Some (PyStr a) \<and> map lower_char a = map lower_char b)"
proof (cases "map_of r col")
  case None
  then show ?thesis by simp
next
  case (Some stored)
  then show ?thesis by (cases stored) simp_all
qed

lemma test_cmp_direct:
  "test_cmp r (Cmp False col ph) bound = (bound \<noteq> PyNone \<and> map_of r col = Some bound)"
  by (cases "map_of r col") auto

lemma john_examples:
  "fst (search_data gateway [(''name'', PyStr ''john'')] ''AND'' False sample_store) =
     Inr [record_of sample_table (1, [PyStr ''John'', PyInt 30, PyStr ''New York''])]"
  "fst (search_data gateway [(''name'', PyStr ''john'')] ''AND'' True sample_store) = Inr []"
  "fst (query_by_text gateway
         \<lparr>conditions = [(''name'', PyStr ''john'')], operator = ''AND'', case_sensitive = False\<rparr>
         10 sample_store) =
     Inr [record_of sample_table (1, [PyStr ''John'', PyInt 30, PyStr ''New York''])]"
  "fst (query_by_text gateway
         \<lparr>conditions = [(''name'', PyStr ''john'')], operator = ''AND'', case_sensitive = True\<rparr>
         10 sample_store) = Inr []"
  by code_simp+

text \<open>
  C2. For every condition entry, both compilers write the folded comparison
  \<open>LOWER("column") = LOWER(placeholder)\<close> exactly when the value is a string and the search
  is not case sensitive, and the direct comparison \<open>"column" = placeholder\<close> otherwise;
  the value itself goes to the parameters. For a column name without a double quote the
  store reads the written text back as that comparison, folded or direct. The folded
  comparison holds when the stored and the bound text agree after lower-casing, the direct
  one when they are equal. On the sample table a search for john that is not case
  sensitive returns the record of John, and the case sensitive search returns nothing,
  through \<open>search_data\<close> and through \<open>query_by_text\<close> alike.
\<close>

theorem comparison_rule:
  "search_clause cs (col, v) =
     (if is_str v \<and> \<not> cs then ''LOWER('' @ quoted col @ '') = LOWER(%s)''
      else quoted col @ '' = %s'')
   \<and> where_clause cs (idx, col, v) =
     (if is_str v \<and> \<not> cs then ''LOWER('' @ quoted col @ '') = LOWER(:'' @ param_name idx @ '')''
      else quoted col @ '' = :'' @ param_name idx)
   \<and> (col \<noteq> [] \<and> CHR 0x22 \<notin> set col \<longrightarrow>
        parse_comparison Pyformat (search_clause cs (col, v)) =
          Some (Cmp (is_str v \<and> \<not> cs) col Positional, [])
        \<and> parse_comparison NamedStyle (where_clause cs (idx, col, v)) =
          Some (Cmp (is_str v \<and> \<not> cs) col (Named (param_name idx)), []))
   \<and> test_cmp r (Cmp True col ph) (PyStr b) =
        (\<exists>a. map_of r col = Some (PyStr a) \<and> map lower_char a = map lower_char b)
   \<and> test_cmp r (Cmp False col ph) bound = (bound \<noteq> PyNone \<and> map_of r col = Some bound)
   \<and> fst (search_data gateway [(''name'', PyStr ''john'')] ''AND'' False sample_store) =
        Inr [record_of sample_table (1, [PyStr ''John'', PyInt 30, PyStr ''New York''])]
   \<and> fst (search_data gateway [(''name'', PyStr ''john'')] ''AND'' True sample_store) = Inr []
   \<and> fst (query_by_text gateway
         \<lparr>conditions = [(''name'', PyStr ''john'')], operator = ''AND'', case_sensitive = False\<rparr>
         10 sample_store) =
        Inr [record_of sample_table (1, [PyStr ''John'', PyInt 30, PyStr ''New York''])]
   \<and> fst (query_by_text gateway
         \<lparr>conditions = [(''name'', PyStr ''john'')], operator = ''AND'', case_sensitive = True\<rparr>
         10 sample_store) = Inr []"
  using parse_search_clause [of col cs v] parse_where_clause [of col cs idx v]
  by (intro conjI impI clause_texts test_cmp_folded test_cmp_direct john_examples) simp_all

theorem comparison_rule_witness:
  "parse_comparison Pyformat (search_clause False (''name'', PyStr ''john'')) =
     Some (Cmp True ''name'' Positional, [])
   \<and> parse_comparison NamedStyle (where_clause True (0, ''name'', PyStr ''john'')) =
     Some (Cmp False ''name'' (Named (param_name 0)), [])"
proof -
  have plain: "''name'' \<noteq> [] \<and> CHR 0x22 \<notin> set ''name''" by simp
  from comparison_rule [of False "''name''" "PyStr ''john''" 0] plain
  have "parse_comparison Pyformat (search_clause False (''name'', PyStr ''john'')) =
      Some (Cmp (is_str (PyStr ''john'') \<and> \<not> False) ''name'' Positional, [])"
    by blast
  moreover from comparison_rule [of True "''name''" "PyStr ''john''" 0] plain
  have "parse_comparison NamedStyle (where_clause True (0, ''name'', PyStr ''john'')) =
      Some (Cmp (is_str (PyStr ''john'') \<and> \<not> True) ''name'' (Named (param_name 0)), [])"
    by blast
  ultimately show ?thesis by simp
qed


text \<open>
  C3, as stated, fails: neither compiler looks at the combinator. With the combinator
  \<open>XOR\<close>, which is neither \<open>AND\<close> nor \<open>OR\<close>, both emit a fragment, the
  comparisons joined by \<open>XOR\<close>.
\<close>

theorem combinator_not_checked_counterexample:
  "search_query gateway [(''name'', PyStr ''John''), (''age'', PyInt 30)] ''XOR'' True =
     Inr (SelectWhere ''public.csv_data_table01''
            (quoted ''name'' @ '' = %s XOR '' @ quoted ''age'' @ '' = %s''),
          Tuple [PyStr ''John'', PyInt 30])
   \<and> fst (build_where_clause [(''name'', PyStr ''John''), (''age'', PyInt 30)] ''XOR'' True) =
       quoted ''name'' @ '' = :param_0 XOR '' @ quoted ''age'' @ '' = :param_1''
   \<and> ''XOR'' \<noteq> ''AND'' \<and> ''XOR'' \<noteq> ''OR''"
  by code_simp

lemma length_tail_text:
  "length (tail_text sep ys) = length ys * length sep + sum_list (map length ys)"
  by (induction ys) simp_all

lemma tail_text_inject:
  assumes "ys \<noteq> []" and "tail_text sep ys = tail_text sep' ys"
  shows "sep = sep'"
proof -
  from assms(2) have "length (tail_text sep ys) = length (tail_text sep' ys)" by simp
  then have "length ys * length sep = length ys * length sep'"
    by (simp add: length_tail_text)
  with assms(1) have len: "length sep = length sep'" by simp
  from assms(1) obtain y ys' where ys: "ys = y # ys'" by (cases ys) auto
  from assms(2) have "sep @ (y @ tail_text sep ys') = sep' @ (y @ tail_text sep' ys')"
    by (simp add: ys)
  with len show ?thesis by simp
qed

lemma joined_by_inject:
  assumes "ys \<noteq> []"
  shows "(x @ tail_text ('' '' @ op @ '' '') ys = x @ tail_text ('' '' @ op' @ '' '') ys) = (op = op')"
proof
  assume "x @ tail_text ('' '' @ op @ '' '') ys = x @ tail_text ('' '' @ op' @ '' '') ys"
  then have "tail_text ('' '' @ op @ '' '') ys = tail_text ('' '' @ op' @ '' '') ys" by simp
  from tail_text_inject [OF assms this] show "op = op'" by simp
next
  assume "op = op'"
  then show "x @ tail_text ('' '' @ op @ '' '') ys = x @ tail_text ('' '' @ op' @ '' '') ys" by simp
qed

lemma search_query_joined:
  assumes "\<not> falsy (table_name self)"
  shows "search_query self (e # es) op cs =
    Inr (SelectWhere (target self)
           (search_clause cs e @ tail_text ('' '' @ op @ '' '') (map (search_clause cs) es)),
         Tuple (map snd (e # es)))"
  using assms by (simp add: search_query_def join_tail)

lemma search_data_issued:
  assumes "search_query self conds op cs = Inr (q, ps)"
  shows "issued s (snd (search_data self conds op cs s)) = [(q, ps)]"
proof -
  obtain r s' where ex: "execute q ps s = (r, s')" by (cases "execute q ps s")
  from execute_log [OF ex] have l: "log s' = log s @ [(q, ps)]" .
  have "log (snd (search_data self conds op cs s)) = log s'"
    using assms ex by (cases r) (simp_all add: search_data_def rollback_log)
  with l show ?thesis by (simp add: issued_append)
qed

lemma build_where_clause_joined:
  "build_where_clause (e # es) op cs =
    (where_clause cs (0, e) @ tail_text ('' '' @ op @ '' '') (map (where_clause cs) (enumerate 1 es)),
     map (\<lambda>(idx, col, v). (param_name idx, v)) (enumerate 0 (e # es)))"
  by (simp add: build_where_clause_def join_tail)

text \<open>
  C3, amended. \<open>search_data\<close> raises a \<open>ValueError\<close> on an empty conditions mapping
  and leaves the store untouched. No combinator is refused. For every non-empty conditions
  mapping and every combinator string whatever, \<open>search_data\<close>, with a table selected,
  builds and hands to the store the statement whose fragment is the first comparison and
  then, for each further condition, a space, the combinator as it was given, a space and
  the comparison; \<open>build_where_clause\<close> returns the fragment built the same way. With two
  or more conditions different combinators give different fragments: the combinator is
  neither checked nor replaced.
\<close>

theorem predicate_errors:
  "(\<exists>msg. search_data self [] op cs s = (Inl (ValueError msg), s))
   \<and> (\<not> falsy (table_name self) \<longrightarrow>
        search_query self (e # es) op cs =
          Inr (SelectWhere (target self)
                 (search_clause cs e @ tail_text ('' '' @ op @ '' '') (map (search_clause cs) es)),
               Tuple (map snd (e # es)))
        \<and> issued s (snd (search_data self (e # es) op cs s)) =
            [(SelectWhere (target self)
                (search_clause cs e @ tail_text ('' '' @ op @ '' '') (map (search_clause cs) es)),
              Tuple (map snd (e # es)))])
   \<and> build_where_clause (e # es) op cs =
       (where_clause cs (0, e) @
          tail_text ('' '' @ op @ '' '') (map (where_clause cs) (enumerate 1 es)),
        map (\<lambda>(idx, col, v). (param_name idx, v)) (enumerate 0 (e # es)))
   \<and> (es \<noteq> [] \<longrightarrow>
        (fst (build_where_clause (e # es) op cs) = fst (build_where_clause (e # es) op' cs))
          = (op = op')
        \<and> (\<not> falsy (table_name self) \<longrightarrow>
            (search_query self (e # es) op cs = search_query self (e # es) op' cs) = (op = op')))"
proof -
  have 1: "\<exists>msg. search_data self [] op cs s = (Inl (ValueError msg), s)"
    by (simp add: search_data_def search_query_def)
  have 2: "issued s (snd (search_data self (e # es) op cs s)) =
            [(SelectWhere (target self)
                (search_clause cs e @ tail_text ('' '' @ op @ '' '') (map (search_clause cs) es)),
              Tuple (map snd (e # es)))]"
    if "\<not> falsy (table_name self)"
    using search_query_joined [OF that] by (rule search_data_issued)
  have 3: "(fst (build_where_clause (e # es) op cs) = fst (build_where_clause (e # es) op' cs))
          = (op = op')" if "es \<noteq> []"
  proof -
    from that have "map (where_clause cs) (enumerate 1 es) \<noteq> []" by (cases es) simp_all
    from joined_by_inject [OF this] show ?thesis
      by (simp only: build_where_clause_joined fst_conv)
  qed
  have 4: "(search_query self (e # es) op cs = search_query self (e # es) op' cs) = (op = op')"
    if "es \<noteq> []" "\<not> falsy (table_name self)"
  proof -
    from that(1) have "map (search_clause cs) es \<noteq> []" by simp
    from joined_by_inject [OF this] show ?thesis
      by (simp only: search_query_joined [OF that(2)] sum.inject prod.inject sql.inject
          simp_thms)
  qed
  from 1 2 3 4 search_query_joined build_where_clause_joined show ?thesis by blast
qed

theorem predicate_errors_witness:
  "search_query gateway [(''name'', PyStr ''John''), (''age'', PyInt 30)] ''NAND'' False =
     Inr (SelectWhere ''public.csv_data_table01''
            (''LOWER('' @ quoted ''name'' @ '') = LOWER(%s) NAND '' @ quoted ''age'' @ '' = %s''),
          Tuple [PyStr ''John'', PyInt 30])
   \<and> issued sample_store
       (snd (search_data gateway [(''name'', PyStr ''John''), (''age'', PyInt 30)] ''NAND'' False
          sample_store)) =
     [(SelectWhere ''public.csv_data_table01''
            (''LOWER('' @ quoted ''name'' @ '') = LOWER(%s) NAND '' @ quoted ''age'' @ '' = %s''),
       Tuple [PyStr ''John'', PyInt 30])]
   \<and> fst (build_where_clause [(''name'', PyStr ''John''), (''age'', PyInt 30)] ''NAND'' False) =
       ''LOWER('' @ quoted ''name'' @ '') = LOWER(:param_0) NAND '' @ quoted ''age'' @ '' = :param_1''
   \<and> fst (build_where_clause [(''name'', PyStr ''John''), (''age'', PyInt 30)] ''NAND'' False) \<noteq>
     fst (build_where_clause [(''name'', PyStr ''John''), (''age'', PyInt 30)] ''XOR'' False)"
proof -
  let ?e = "(''name'', PyStr ''John'')"
  let ?es = "[(''age'', PyInt 30)]"
  have sel: "\<not> falsy (table_name gateway)" by (simp add: falsy_def gateway_def)
  have two: "?es \<noteq> []" by simp
  have tg: "target gateway = ''public.csv_data_table01''" by (simp add: target_def gateway_def)
  have f: "search_clause False ?e @ tail_text ('' '' @ ''NAND'' @ '' '') (map (search_clause False) ?es) =
      ''LOWER('' @ quoted ''name'' @ '') = LOWER(%s) NAND '' @ quoted ''age'' @ '' = %s''"
    by code_simp
  have g: "where_clause False (0, ?e) @
      tail_text ('' '' @ ''NAND'' @ '' '') (map (where_clause False) (enumerate 1 ?es)) =
      ''LOWER('' @ quoted ''name'' @ '') = LOWER(:param_0) NAND '' @ quoted ''age'' @ '' = :param_1''"
    by code_simp
  have vs: "map snd (?e # ?es) = [PyStr ''John'', PyInt 30]" by simp
  have ne: "''NAND'' \<noteq> ''XOR''" by simp
  note inst = predicate_errors [of gateway "''NAND''" False sample_store ?e ?es "''XOR''"]
  from inst sel have a: "search_query gateway (?e # ?es) ''NAND'' False =
          Inr (SelectWhere (target gateway)
                 (search_clause False ?e @
                    tail_text ('' '' @ ''NAND'' @ '' '') (map (search_clause False) ?es)),
               Tuple (map snd (?e # ?es)))"
    by blast
  from inst sel have b: "issued sample_store (snd (search_data gateway (?e # ?es) ''NAND'' False sample_store)) =
            [(SelectWhere (target gateway)
                (search_clause False ?e @
                   tail_text ('' '' @ ''NAND'' @ '' '') (map (search_clause False) ?es)),
              Tuple (map snd (?e # ?es)))]"
    by blast
  from inst have "build_where_clause (?e # ?es) ''NAND'' False =
       (where_clause False (0, ?e) @
          tail_text ('' '' @ ''NAND'' @ '' '') (map (where_clause False) (enumerate 1 ?es)),
        map (\<lambda>(idx, col, v). (param_name idx, v)) (enumerate 0 (?e # ?es)))"
    by blast
  then have c: "fst (build_where_clause (?e # ?es) ''NAND'' False) =
      where_clause False (0, ?e) @
          tail_text ('' '' @ ''NAND'' @ '' '') (map (where_clause False) (enumerate 1 ?es))"
    by (simp only: fst_conv)
  from inst two have "(fst (build_where_clause (?e # ?es) ''NAND'' False) =
      fst (build_where_clause (?e # ?es) ''XOR'' False)) = (''NAND'' = ''XOR'')"
    by blast
  with ne have d: "fst (build_where_clause (?e # ?es) ''NAND'' False) \<noteq>
      fst (build_where_clause (?e # ?es) ''XOR'' False)"
    by blast
  from a b c d show ?thesis unfolding f g vs tg by blast
qed

section \<open>The gateway's operations\<close>

text \<open>
  C4, at a failing input. The condition key \<open>name" = :param_0 AND "name\<close> is not a
  column of the sample table. The compiler splices it between double quotes as it is, and
  the fragment it returns is the text of two comparisons on the existing column
  \<open>name\<close>. The store accepts the statement and the request succeeds with an empty row
  set. A plain unknown key, \<open>nam\<close>, is refused by the store and ends in status 400.
\<close>

theorem unknown_column_injection:
  \<open>''name" = :param_0 AND "name'' \<notin> set (column_names sample_table)
   \<and> fst (build_where_clause [(''name" = :param_0 AND "name'', PyStr ''zzz'')] ''AND'' True) =
       quoted ''name'' @ '' = :param_0 AND '' @ quoted ''name'' @ '' = :param_0''
   \<and> fst (query_by_text gateway
         \<lparr>conditions = [(''name" = :param_0 AND "name'', PyStr ''zzz'')],
          operator = ''AND'', case_sensitive = True\<rparr> 10 sample_store) = Inr []
   \<and> fst (query_by_text gateway
         \<lparr>conditions = [(''nam'', PyStr ''zzz'')],
          operator = ''AND'', case_sensitive = True\<rparr> 10 sample_store) =
       Inl (HTTPException 400 (StrOf (DatabaseError (UndefinedColumn ''nam''))))\<close>
  by code_simp

text \<open>
  C7, at a failing input. With an empty list of keys the request ends in status 400
  instead of answering with the empty list. With the keys 2 and 7 on the sample table the
  answer is the one key that existed, and the same request again answers with the empty
  list.
\<close>

theorem delete_empty_list_rejected:
  "fst (delete_items gateway [] sample_store) =
     Inl (HTTPException 400 (StrOf (DatabaseError SyntaxError)))
   \<and> fst (delete_items gateway [2, 7] sample_store) = Inr [PyInt 2]
   \<and> fst (delete_items gateway [2, 7] (snd (delete_items gateway [2, 7] sample_store))) = Inr []"
  by code_simp

text \<open>
  C8, at a failing input. The table has a column named \<open>item_id\<close>. Updating that column
  of record 1 to 5 writes 1 into it: the parameters are the new values with the key
  \<open>item_id\<close> set to the record's key afterwards, and \<open>:item_id\<close> stands for both. An
  update of the other column does what it should.
\<close>

theorem update_item_id_collision:
  "fst (update_item gateway 1 [(''item_id'', PyInt 5)] stock_store) =
     Inr [(''_csv_import_id_'', PyInt 1), (''item_id'', PyInt 1), (''label'', PyStr ''pen'')]
   \<and> fst (update_item gateway 1 [(''label'', PyStr ''nib'')] stock_store) =
     Inr [(''_csv_import_id_'', PyInt 1), (''item_id'', PyInt 100), (''label'', PyStr ''nib'')]"
  by code_simp

text \<open>
  C10. Whatever the store holds, a delete request with an empty list of keys ends in
  status 400, the store's syntax error as detail, and changes no table: the list of keys
  prints as the empty text, so the one statement handed to the store reads
  \<open>WHERE _csv_import_id_ IN ()\<close>.
\<close>

theorem delete_nothing_fails:
  "fst (delete_items self [] s) = Inl (HTTPException 400 (StrOf (DatabaseError SyntaxError)))
   \<and> tables (snd (delete_items self [] s)) = tables s
   \<and> issued s (snd (delete_items self [] s)) = [(DeleteIn (target self) [], NoParams)]
   \<and> ids_str [] = []
   \<and> sql_text (DeleteIn (target self) []) =
       ''\<newline>'' @ indent 12 @ ''DELETE FROM '' @ target self @ ''\<newline>'' @
       indent 12 @ ''WHERE _csv_import_id_ IN ()\<newline>'' @
       indent 12 @ ''RETURNING _csv_import_id_\<newline>'' @ indent 8"
  by (simp add: delete_items_def execute_def rollback_def issued_def ids_str_def)

section \<open>Delete-batch on ordinary input\<close>

lemma those_first_value:
  "those (map (first_value \<circ> (\<lambda>r. [(pk_column, PyInt (fst r))])) rs) =
    Some (map (\<lambda>r. PyInt (fst r)) rs)"
  by (induction rs) simp_all

lemma delete_items_run:
  assumes "ids \<noteq> []" "tables s (target self) = Some t"
  shows "delete_items self ids s =
    (Inr (map (\<lambda>r. PyInt (fst r)) (filter (\<lambda>r. fst r \<in> set ids) (tbl_rows t))),
     \<lparr>tables = (tables s)(target self \<mapsto> t\<lparr>tbl_rows := filter (\<lambda>r. fst r \<notin> set ids) (tbl_rows t)\<rparr>),
      log = log s @ [(DeleteIn (target self) ids, NoParams)]\<rparr>)"
  using assms by (simp add: delete_items_def execute_def delete_in_def those_first_value)

text \<open>
  Delete-batch on a non-empty list of keys and an existing table: the answer lists exactly
  the keys of the list that the table held, each once when the keys of the table are
  distinct; those rows are gone and no other; the same request again answers with the
  empty list.
\<close>

theorem delete_items_existing_subset:
  assumes "ids \<noteq> []" and "tables s (target self) = Some t"
  shows "(\<exists>ks. fst (delete_items self ids s) = Inr (map PyInt ks)
          \<and> set ks = set ids \<inter> fst ` set (tbl_rows t)
          \<and> (distinct (map fst (tbl_rows t)) \<longrightarrow> distinct ks))
    \<and> (\<exists>t'. tables (snd (delete_items self ids s)) (target self) = Some t'
          \<and> tbl_rows t' = filter (\<lambda>r. fst r \<notin> set ids) (tbl_rows t)
          \<and> tbl_columns t' = tbl_columns t)
    \<and> fst (delete_items self ids (snd (delete_items self ids s))) = Inr []"
proof -
  let ?t' = "t\<lparr>tbl_rows := filter (\<lambda>r. fst r \<notin> set ids) (tbl_rows t)\<rparr>"
  let ?s' = "\<lparr>tables = (tables s)(target self \<mapsto> ?t'),
      log = log s @ [(DeleteIn (target self) ids, NoParams)]\<rparr>"
  let ?ks = "filter (\<lambda>k. k \<in> set ids) (map fst (tbl_rows t))"
  have run: "delete_items self ids s =
      (Inr (map (\<lambda>r. PyInt (fst r)) (filter (\<lambda>r. fst r \<in> set ids) (tbl_rows t))), ?s')"
    using assms by (rule delete_items_run)
  have again: "tables ?s' (target self) = Some ?t'" by simp
  have none: "filter (\<lambda>r. fst r \<in> set ids) (tbl_rows ?t') = []"
    by (simp add: filter_empty_conv)
  have "fst (delete_items self ids s) = Inr (map PyInt ?ks)"
    by (simp add: run filter_map comp_def)
  moreover have "set ?ks = set ids \<inter> fst ` set (tbl_rows t)" by auto
  moreover have "distinct (map fst (tbl_rows t)) \<longrightarrow> distinct ?ks" by simp
  ultimately have a: "\<exists>ks. fst (delete_items self ids s) = Inr (map PyInt ks)
          \<and> set ks = set ids \<inter> fst ` set (tbl_rows t)
          \<and> (distinct (map fst (tbl_rows t)) \<longrightarrow> distinct ks)"
    by blast
  have b: "\<exists>t'. tables (snd (delete_items self ids s)) (target self) = Some t'
          \<and> tbl_rows t' = filter (\<lambda>r. fst r \<notin> set ids) (tbl_rows t)
          \<and> tbl_columns t' = tbl_columns t"
    by (simp add: run)
  have c: "fst (delete_items self ids (snd (delete_items self ids s))) = Inr []"
    unfolding run snd_conv delete_items_run [OF assms(1) again] fst_conv none by simp
  show ?thesis by (intro conjI a b c)
qed

theorem delete_items_existing_subset_witness:
  "(\<exists>ks. fst (delete_items gateway [2, 7] sample_store) = Inr (map PyInt ks) \<and> set ks = {2})
   \<and> fst (delete_items gateway [2, 7] (snd (delete_items gateway [2, 7] sample_store))) = Inr []"
proof -
  have t: "tables sample_store (target gateway) = Some sample_table"
    by (simp add: sample_store_def target_def gateway_def)
  have ne: "[2, 7] \<noteq> ([] :: int list)" by simp
  have ks: "set [2, 7] \<inter> fst ` set (tbl_rows sample_table) = {2}"
    by (simp add: sample_table_def)
  from delete_items_existing_subset [OF ne t] show ?thesis unfolding ks by blast
qed

section \<open>Read-by-predicate on ordinary input\<close>

lemma map_of_dict_set:
  "map_of (dict_set k v d) k' = (if k' = k then Some v else map_of d k')"
  by (induction d) auto

lemma parse_where_clause_rest:
  assumes "col \<noteq> []" "CHR 0x22 \<notin> set col" "rest = [] \<or> \<not> word_char (hd rest)"
  shows "parse_comparison NamedStyle (where_clause cs (idx, col, v) @ rest) =
    Some (compiled cs (idx, col, v), rest)"
proof -
  have ph1: "read_placeholder NamedStyle (CHR '':'' # param_name idx @ CHR '')'' # rest) =
      Some (Named (param_name idx), CHR '')'' # rest)"
    by (rule read_named_param) (simp add: word_char_def)
  have ph2: "read_placeholder NamedStyle (CHR '':'' # param_name idx @ rest) =
      Some (Named (param_name idx), rest)"
    using assms(3) by (rule read_named_param)
  show ?thesis
    using assms(1,2) ph1 ph2
    by (simp add: parse_comparison_def where_clause_def read_ident_plain
        del: read_placeholder.simps)
qed

lemma parse_more_and:
  assumes "strip_prefix '' AND '' s = Some r" "parse_comparison st r = Some (c, r')"
    and "parse_more st r' = Some rest"
  shows "parse_more st s = Some ((And, c) # rest)"
proof -
  have "s \<noteq> []" using assms(1) by auto
  then show ?thesis by (subst parse_more.simps) (simp add: assms)
qed

lemma parse_more_or:
  assumes "strip_prefix '' AND '' s = None" "strip_prefix '' OR '' s = Some r"
    and "parse_comparison st r = Some (c, r')" "parse_more st r' = Some rest"
  shows "parse_more st s = Some ((Or, c) # rest)"
proof -
  have "s \<noteq> []" using assms(2) by auto
  then show ?thesis by (subst parse_more.simps) (simp add: assms)
qed

lemma tail_text_start:
  "tail_text ('' '' @ op @ '' '') ys = [] \<or> \<not> word_char (hd (tail_text ('' '' @ op @ '' '') ys))"
  by (cases ys) (simp_all add: word_char_def)

lemma parse_more_clauses:
  assumes "op = ''AND'' \<or> op = ''OR''"
    and "\<forall>e \<in> set es. fst (snd e) \<noteq> [] \<and> CHR 0x22 \<notin> set (fst (snd e))"
  shows "parse_more NamedStyle (tail_text ('' '' @ op @ '' '') (map (where_clause cs) es)) =
    Some (map (\<lambda>e. (connective_of op, compiled cs e)) es)"
  using assms(2)
proof (induction es)
  case Nil
  then show ?case by (simp add: parse_more.simps)
next
  case (Cons e es)
  obtain idx col v where e: "e = (idx, col, v)" by (cases e)
  define rest where "rest = tail_text ('' '' @ op @ '' '') (map (where_clause cs) es)"
  have start: "rest = [] \<or> \<not> word_char (hd rest)"
    unfolding rest_def by (rule tail_text_start)
  have plain: "col \<noteq> []" "CHR 0x22 \<notin> set col" using Cons.prems e by auto
  have one: "parse_comparison NamedStyle (where_clause cs e @ rest) = Some (compiled cs e, rest)"
    unfolding e using plain start by (rule parse_where_clause_rest)
  have others: "parse_more NamedStyle rest = Some (map (\<lambda>e. (connective_of op, compiled cs e)) es)"
    unfolding rest_def using Cons by simp
  have shape: "tail_text ('' '' @ op @ '' '') (map (where_clause cs) (e # es)) =
      ('' '' @ op @ '' '') @ (where_clause cs e @ rest)"
    by (simp add: rest_def)
  from assms(1) show ?case
  proof
    assume op: "op = ''AND''"
    have sp: "strip_prefix '' AND '' (('' '' @ op @ '' '') @ (where_clause cs e @ rest)) =
        Some (where_clause cs e @ rest)"
      unfolding op by simp
    show ?thesis
      unfolding shape using parse_more_and [OF sp one others] op
      by (simp add: connective_of_def)
  next
    assume op: "op = ''OR''"
    have no: "strip_prefix '' AND '' (('' '' @ op @ '' '') @ (where_clause cs e @ rest)) = None"
      unfolding op by simp
    have sp: "strip_prefix '' OR '' (('' '' @ op @ '' '') @ (where_clause cs e @ rest)) =
        Some (where_clause cs e @ rest)"
      unfolding op by simp
    show ?thesis
      unfolding shape using parse_more_or [OF no sp one others] op
      by (simp add: connective_of_def)
  qed
qed

lemma parse_where_fragment:
  assumes "op = ''AND'' \<or> op = ''OR''"
    and "\<forall>e \<in> set (e0 # es). fst (snd e) \<noteq> [] \<and> CHR 0x22 \<notin> set (fst (snd e))"
  shows "parse_where NamedStyle (join ('' '' @ op @ '' '') (map (where_clause cs) (e0 # es))) =
    Some (compiled cs e0, map (\<lambda>e. (connective_of op, compiled cs e)) es)"
proof -
  obtain idx col v where e: "e0 = (idx, col, v)" by (cases e0)
  define rest where "rest = tail_text ('' '' @ op @ '' '') (map (where_clause cs) es)"
  have start: "rest = [] \<or> \<not> word_char (hd rest)"
    unfolding rest_def by (rule tail_text_start)
  have plain: "col \<noteq> []" "CHR 0x22 \<notin> set col" using assms(2) e by auto
  have one: "parse_comparison NamedStyle (where_clause cs e0 @ rest) = Some (compiled cs e0, rest)"
    unfolding e using plain start by (rule parse_where_clause_rest)
  have others: "parse_more NamedStyle rest = Some (map (\<lambda>e. (connective_of op, compiled cs e)) es)"
    unfolding rest_def using assms by (intro parse_more_clauses) simp_all
  have shape: "join ('' '' @ op @ '' '') (map (where_clause cs) (e0 # es)) = where_clause cs e0 @ rest"
    by (simp add: join_tail rest_def)
  show ?thesis unfolding shape parse_where_def one by (simp add: others)
qed

lemma bind_named_compiled:
  assumes "\<forall>e \<in> set es. map_of d (param_name (fst e)) \<noteq> None"
  shows "\<exists>vs. bind_named d (map (compiled cs) es) = Some vs"
  using assms
proof (induction es)
  case Nil
  then show ?case by simp
next
  case (Cons e es)
  obtain idx col v where e: "e = (idx, col, v)" by (cases e)
  from Cons obtain vs where "bind_named d (map (compiled cs) es) = Some vs" by auto
  moreover from Cons.prems e obtain x where "map_of d (param_name idx) = Some x" by auto
  ultimately show ?case using e by simp
qed

lemma cmp_column_compiled:
  "(cmp_column \<circ> truncated) (compiled cs e) = truncate_identifier (fst (snd e))"
  by (cases e) simp

lemma param_name_not_limit: "param_name idx \<noteq> ''limit''"
  by (simp add: param_name_def)

lemma select_unknown_column:
  assumes "op = ''AND'' \<or> op = ''OR''"
    and "\<forall>k \<in> set (map fst conds). k \<noteq> [] \<and> CHR 0x22 \<notin> set k"
    and "\<exists>k \<in> set (map fst conds). truncate_identifier k \<notin> set (column_names t)"
  shows "\<exists>c. select_where t NamedStyle (fst (build_where_clause conds op cs))
        (Dict (dict_set ''limit'' (PyInt limit) (snd (build_where_clause conds op cs)))) =
      Inl (UndefinedColumn c)"
proof -
  from assms(3) have "conds \<noteq> []" by auto
  then obtain e0 es where es: "enumerate 0 conds = e0 # es"
    by (cases conds) simp_all
  have cols: "map (\<lambda>e. fst (snd e)) (e0 # es) = map fst conds"
  proof -
    have "map (\<lambda>e. fst (snd e)) (enumerate 0 conds) = map fst (map snd (enumerate 0 conds))"
      by (simp only: map_map comp_def)
    also have "map snd (enumerate 0 conds) = conds" by (rule map_snd_enumerate)
    finally show ?thesis by (simp add: es)
  qed
  then have mem: "\<And>e. e \<in> set (e0 # es) \<Longrightarrow> fst (snd e) \<in> set (map fst conds)"
    by (metis (no_types, lifting) image_eqI list.set_map)
  have plain: "\<forall>e \<in> set (e0 # es). fst (snd e) \<noteq> [] \<and> CHR 0x22 \<notin> set (fst (snd e))"
    using assms(2) mem by blast
  define frag where "frag = fst (build_where_clause conds op cs)"
  define d where "d = dict_set ''limit'' (PyInt limit) (snd (build_where_clause conds op cs))"
  have frag: "frag = join ('' '' @ op @ '' '') (map (where_clause cs) (e0 # es))"
    by (simp add: frag_def build_where_clause_def es)
  have parsed: "parse_where NamedStyle frag =
      Some (compiled cs e0, map (\<lambda>e. (connective_of op, compiled cs e)) es)"
    unfolding frag using assms(1) plain by (rule parse_where_fragment)
  have comps: "compiled cs e0 # map snd (map (\<lambda>e. (connective_of op, compiled cs e)) es) =
      map (compiled cs) (e0 # es)"
    by (simp add: comp_def)
  have bound: "\<forall>e \<in> set (e0 # es). map_of d (param_name (fst e)) \<noteq> None"
  proof
    fix e assume "e \<in> set (e0 # es)"
    then have "e \<in> set (enumerate 0 conds)" by (simp add: es)
    then have "(\<lambda>(idx, col, v). (param_name idx, v)) e
        \<in> set (snd (build_where_clause conds op cs))"
      by (simp add: build_where_clause_def)
    then have "fst ((\<lambda>(idx, col, v). (param_name idx, v)) e)
        \<in> fst ` set (snd (build_where_clause conds op cs))"
      by (rule imageI)
    then have "param_name (fst e) \<in> fst ` set (snd (build_where_clause conds op cs))"
      by (simp add: case_prod_beta)
    then have "map_of (snd (build_where_clause conds op cs)) (param_name (fst e)) \<noteq> None"
      by (simp add: map_of_eq_None_iff)
    then show "map_of d (param_name (fst e)) \<noteq> None"
      by (simp add: d_def map_of_dict_set param_name_not_limit)
  qed
  from bind_named_compiled [OF bound, of cs] obtain vs where
    vs: "bind_named d (map (compiled cs) (e0 # es)) = Some vs" by blast
  have "map (cmp_column \<circ> truncated) (map (compiled cs) (e0 # es)) =
      map truncate_identifier (map (\<lambda>e. fst (snd e)) (e0 # es))"
    by (simp only: map_map comp_def cmp_column_compiled [unfolded comp_def])
  then have names: "map (cmp_column \<circ> truncated) (map (compiled cs) (e0 # es)) =
      map truncate_identifier (map fst conds)"
    by (simp only: cols)
  from assms(3) have "filter (\<lambda>col. col \<notin> set (column_names t))
      (map truncate_identifier (map fst conds)) \<noteq> []"
    by (auto simp: filter_empty_conv)
  then obtain bad others where
    bad: "filter (\<lambda>col. col \<notin> set (column_names t)) (map truncate_identifier (map fst conds)) =
      bad # others"
    by (cases "filter (\<lambda>col. col \<notin> set (column_names t)) (map truncate_identifier (map fst conds))")
      auto
  have "select_where t NamedStyle frag (Dict d) = Inl (UndefinedColumn bad)"
    unfolding select_where_def parsed option.case prod.case comps bind_params.simps vs names bad
    by simp
  then show ?thesis unfolding frag_def d_def by blast
qed

lemma quote_not_word: "\<not> word_char (CHR 0x22)"
  by (simp add: word_char_def)

lemma is_word_plain: "is_word k \<Longrightarrow> k \<noteq> [] \<and> CHR 0x22 \<notin> set k"
  using quote_not_word unfolding is_word_def list_all_iff by blast

text \<open>
  Read-by-predicate with plain names: the schema, the table name and every condition key
  are words (letters, digits, underscores), the combinator is \<open>AND\<close> or \<open>OR\<close>, the
  limit is within its bounds and the target table exists. When some key names neither a
  declared column of the table, nor a system column, nor the table itself (which the store
  would read as the whole row), the request ends in status 400 and no table changes; it
  does not answer with a row set.
\<close>

theorem unknown_plain_column_rejected:
  assumes "tables s (target self) = Some t" and "1 \<le> limit" and "limit \<le> 100"
    and "operator search = ''AND'' \<or> operator search = ''OR''"
    and "is_word (schema self)" and "table_name self = Some tn" and "is_word tn"
    and "\<forall>k \<in> set (map fst (conditions search)). is_word k"
    and "\<exists>k \<in> set (map fst (conditions search)).
           truncate_identifier k \<notin> set (column_names t)
           \<and> truncate_identifier k \<notin> set system_columns
           \<and> map lower_char (truncate_identifier k) \<noteq> map lower_char (truncate_identifier tn)"
  shows "(\<exists>detail. fst (query_by_text self search limit s) = Inl (HTTPException 400 detail))
    \<and> tables (snd (query_by_text self search limit s)) = tables s"
proof -
  define built where
    "built = build_where_clause (conditions search) (operator search) (case_sensitive search)"
  from assms(8) have plain:
    "\<forall>k \<in> set (map fst (conditions search)). k \<noteq> [] \<and> CHR 0x22 \<notin> set k"
    using is_word_plain by blast
  from assms(9) have unknown: "\<exists>k \<in> set (map fst (conditions search)).
      truncate_identifier k \<notin> set (column_names t)" by blast
  from select_unknown_column [OF assms(4) plain unknown, of "case_sensitive search" limit]
  obtain c where sel: "select_where t NamedStyle (fst built)
        (Dict (dict_set ''limit'' (PyInt limit) (snd built))) = Inl (UndefinedColumn c)"
    unfolding built_def by blast
  have ex: "execute (SelectWhereLimit (target self) (fst built))
      (Dict (dict_set ''limit'' (PyInt limit) (snd built))) s =
      (Inl (UndefinedColumn c),
       s\<lparr>log := log s @ [(SelectWhereLimit (target self) (fst built),
                           Dict (dict_set ''limit'' (PyInt limit) (snd built)))]\<rparr>)"
    by (simp add: execute_def assms(1) sel)
  have bounds: "\<not> (limit < 1 \<or> 100 < limit)" using assms(2,3) by simp
  have "query_by_text self search limit s =
      (Inl (HTTPException 400 (StrOf (DatabaseError (UndefinedColumn c)))),
       rollback s (s\<lparr>log := log s @ [(SelectWhereLimit (target self) (fst built),
                           Dict (dict_set ''limit'' (PyInt limit) (snd built)))]\<rparr>))"
    unfolding query_by_text_def built_def [symmetric] using bounds
    by (simp add: case_prod_beta ex)
  then show ?thesis by (auto simp: rollback_def)
qed

theorem unknown_plain_column_rejected_witness:
  "\<exists>detail. fst (query_by_text gateway
          \<lparr>conditions = [(''nam'', PyStr ''zzz'')], operator = ''OR'', case_sensitive = False\<rparr>
          10 sample_store) =
        Inl (HTTPException 400 detail)"
proof -
  have t: "tables sample_store (target gateway) = Some sample_table"
    by (simp add: sample_store_def target_def gateway_def)
  have lim: "(1 :: int) \<le> 10" "(10 :: int) \<le> 100" by simp_all
  have names: "is_word (schema gateway)" "table_name gateway = Some ''csv_data_table01''"
    "is_word ''csv_data_table01''" "is_word ''nam''"
    by code_simp+
  have unknown: "truncate_identifier ''nam'' \<notin> set (column_names sample_table)
      \<and> truncate_identifier ''nam'' \<notin> set system_columns
      \<and> map lower_char (truncate_identifier ''nam'') \<noteq>
          map lower_char (truncate_identifier ''csv_data_table01'')"
    by code_simp
  from unknown_plain_column_rejected [OF t lim _ names(1,2,3),
      of "\<lparr>conditions = [(''nam'', PyStr ''zzz'')], operator = ''OR'', case_sensitive = False\<rparr>"]
    names(4) unknown
  show ?thesis by simp
qed

end
